theory Spec2Isabelle
  imports Complex_Main "HOL-Library.Char_ord" "HOL-Library.List_Lexorder"
begin

section \<open>Values, errors and the external collaborators\<close>

text \<open>
  The strategies of \<^verbatim>\<open>strategies.py\<close> are glue code over two external collaborators:
  the chess rules library (the \<^verbatim>\<open>chess.Board\<close> object) and the analysis engine process
  (\<^verbatim>\<open>self.stockfish\<close>). Neither is part of the repository, so both are parameters of the
  model. Exceptions are values of the type \<open>error\<close>; a function that can raise returns
  \<open>error + 'a\<close> with \<open>Inl\<close> for the exception.
\<close>

datatype error = IndexError | ZeroDivisionError | NotImplementedError | EngineError

text \<open>
  What a \<^verbatim>\<open>search\<close> method hands back: a move object taken from the legal moves, a
  Python string (the opening replies of \<^verbatim>\<open>Anarchy\<close> are the literals \<^verbatim>\<open>"e2e4"\<close>,
  \<^verbatim>\<open>"g1f3"\<close>, \<^verbatim>\<open>"f1b5"\<close>), or \<^verbatim>\<open>None\<close>.
\<close>

datatype 'm py_value = Move 'm | Str string | NoneV

text \<open>
  The operations of \<^verbatim>\<open>chess.Board\<close> that the strategies call, on a type \<open>'b\<close> of board
  states and a type \<open>'m\<close> of move objects. \<open>legal_moves\<close> is the enumeration order of
  \<^verbatim>\<open>board.legal_moves\<close>; \<open>turn\<close> is \<^verbatim>\<open>board.turn\<close> (\<^verbatim>\<open>True\<close> is white); \<open>uci\<close> is
  \<^verbatim>\<open>str(move)\<close>. \<open>push\<close> and \<open>pop\<close> mutate the board in Python and return the new board
  state here.
\<close>

record ('b, 'm) chess =
  legal_moves :: "'b \<Rightarrow> 'm list"
  turn :: "'b \<Rightarrow> bool"
  board_fen :: "'b \<Rightarrow> string"
  san :: "'b \<Rightarrow> 'm \<Rightarrow> string"
  uci :: "'m \<Rightarrow> string"
  is_en_passant :: "'b \<Rightarrow> 'm \<Rightarrow> bool"
  push :: "'b \<Rightarrow> 'm \<Rightarrow> 'b"
  pop :: "'b \<Rightarrow> 'b"

text \<open>
  The analysis engine is a process with a state of its own (\<open>'e\<close>): a call of
  \<^verbatim>\<open>analyse(board, Limit(time=t))\<close> followed by \<^verbatim>\<open>result["score"].relative\<close> yields a
  score or raises, and leaves the engine in a new state.
\<close>

type_synonym ('e, 'b, 'n, 's) analysis = "'e \<Rightarrow> 'b \<Rightarrow> 'n \<Rightarrow> (error + 's) \<times> 'e"

text \<open>
  Python computes the time budget in floating point. The model does not fix a number
  type: the operations \<open>*\<close>, \<open>/\<close>, \<open>-\<close> and \<open><\<close> are those of an arbitrary type \<open>'n\<close>
  (of the syntactic classes only, so nothing is assumed about rounding), and the
  literals of the source and the conversion of \<^verbatim>\<open>len(legalMoves)\<close> to a number are the
  fields of a record.
\<close>

record 'n arith =
  lit_0_1 :: 'n
  lit_0_01 :: 'n
  lit_10 :: 'n
  lit_1000 :: 'n
  of_len :: "nat \<Rightarrow> 'n"

text \<open>
  \<^verbatim>\<open>timeLeft\<close> is either the \<^verbatim>\<open>chess.engine.Limit\<close> object of the first move or a
  number of milliseconds.
\<close>

datatype 'n time_left = Limit | Millis 'n

section \<open>FillerEngine\<close>

text \<open>
  \<^verbatim>\<open>__init__\<close> stores three instance attributes. The dictionary \<^verbatim>\<open>{"name": name}\<close> is an
  association list; \<^verbatim>\<open>name\<close> defaults to \<^verbatim>\<open>None\<close>.
\<close>

record 'me FillerEngine =
  id_attr :: "(string \<times> string option) list"
  name_attr :: "string option"
  main_engine :: 'me

definition FillerEngine_init :: "'me \<Rightarrow> string option \<Rightarrow> 'me FillerEngine" where
  "FillerEngine_init me nm =
     \<lparr>id_attr = [(''name'', nm)], name_attr = nm, main_engine = me\<rparr>"

text \<open>
  The result of an attribute access: a value that Python's ordinary lookup finds (on the
  class, with \<open>'c\<close> the type of such values, or in the instance dictionary), or the
  closure \<^verbatim>\<open>method\<close> that \<^verbatim>\<open>__getattr__\<close> builds, which captures \<^verbatim>\<open>main_engine\<close> and
  \<^verbatim>\<open>method_name\<close>.
\<close>

datatype 'me stored = DictV "(string \<times> string option) list" | NameV "string option" | ObjV 'me

datatype ('me, 'c) attr = ClassLevel 'c | Instance "'me stored" | Method 'me string

definition instance_dict :: "'me FillerEngine \<Rightarrow> string \<Rightarrow> 'me stored option" where
  "instance_dict self attr_name =
     (if attr_name = ''id'' then Some (DictV (id_attr self))
      else if attr_name = ''name'' then Some (NameV (name_attr self))
      else if attr_name = ''main_engine'' then Some (ObjV (main_engine self))
      else None)"

definition FillerEngine_getattr :: "'me FillerEngine \<Rightarrow> string \<Rightarrow> ('me, 'c) attr" where
  "FillerEngine_getattr self method_name =
     (let me = main_engine self in Method me method_name)"

text \<open>
  Python calls \<^verbatim>\<open>__getattr__\<close> only when the ordinary lookup fails. \<open>class_lookup\<close> is
  what the class and \<^verbatim>\<open>object\<close> define (\<^verbatim>\<open>__init__\<close>, \<^verbatim>\<open>__class__\<close>, ...), a parameter.
\<close>

definition getattr :: "(string \<Rightarrow> 'c option) \<Rightarrow> 'me FillerEngine \<Rightarrow> string \<Rightarrow> ('me, 'c) attr" where
  "getattr class_lookup self attr_name =
     (case class_lookup attr_name of
        Some c \<Rightarrow> ClassLevel c
      | None \<Rightarrow>
          (case instance_dict self attr_name of
             Some v \<Rightarrow> Instance v
           | None \<Rightarrow> FillerEngine_getattr self attr_name))"

text \<open>
  Calling the closure \<^verbatim>\<open>method\<close>: \<^verbatim>\<open>return main_engine.notify(method_name, *args, **kwargs)\<close>.
  \<open>notify\<close> is the method of the owning strategy, which a subclass may override.
\<close>

definition method_call ::
  "('me \<Rightarrow> string \<Rightarrow> 'a list \<Rightarrow> (string \<times> 'a) list \<Rightarrow> 'r) \<Rightarrow> 'me \<Rightarrow> string \<Rightarrow>
   'a list \<Rightarrow> (string \<times> 'a) list \<Rightarrow> 'r" where
  "method_call notify me method_name args kwargs = notify me method_name args kwargs"

text \<open>
  Calling the value that an attribute access yielded, as far as this model goes: calling
  the closure runs its body; what calling a stored value or a class attribute does is not
  modelled (\<open>None\<close>).
\<close>

definition invoke ::
  "('me \<Rightarrow> string \<Rightarrow> 'a list \<Rightarrow> (string \<times> 'a) list \<Rightarrow> 'r) \<Rightarrow> ('me, 'c) attr \<Rightarrow>
   'a list \<Rightarrow> (string \<times> 'a) list \<Rightarrow> 'r option" where
  "invoke notify v args kwargs =
     (case v of
        Method me method_name \<Rightarrow> Some (method_call notify me method_name args kwargs)
      | _ \<Rightarrow> None)"

section \<open>MinimalEngine\<close>

definition search_with_ponder ::
  "('b, 'm) chess \<Rightarrow> ('b \<Rightarrow> 't \<Rightarrow> 'p \<Rightarrow> 'r) \<Rightarrow> 'b \<Rightarrow> 't \<Rightarrow> 't \<Rightarrow> 'i \<Rightarrow> 'i \<Rightarrow> 'p \<Rightarrow> 'r" where
  "search_with_ponder L search board wtime btime winc binc ponder =
     (let timeleft = (if turn L board then wtime else btime)
      in search board timeleft ponder)"

definition MinimalEngine_search :: "'b \<Rightarrow> 't \<Rightarrow> 'p \<Rightarrow> error + 'm py_value" where
  "MinimalEngine_search board timeleft ponder = Inl NotImplementedError"

section \<open>RandomMove, Alphabetical, FirstMove\<close>

text \<open>
  \<^verbatim>\<open>random.choice(seq)\<close> raises \<^verbatim>\<open>IndexError\<close> on an empty sequence and otherwise returns
  \<^verbatim>\<open>seq[randbelow(len(seq))]\<close>; the draw is the parameter \<open>r\<close>.
\<close>

definition choice :: "nat \<Rightarrow> 'a list \<Rightarrow> error + 'a" where
  "choice r seq = (if seq = [] then Inl IndexError else Inr (seq ! (r mod length seq)))"

definition first_item :: "'a list \<Rightarrow> error + 'a" where
  "first_item xs = (case xs of [] \<Rightarrow> Inl IndexError | x # _ \<Rightarrow> Inr x)"

definition RandomMove_search :: "('b, 'm) chess \<Rightarrow> nat \<Rightarrow> 'b \<Rightarrow> error + 'm py_value" where
  "RandomMove_search L r board = map_sum id Move (choice r (legal_moves L board))"

text \<open>\<^verbatim>\<open>list.sort(key=...)\<close> is a stable sort, as \<open>sort_key\<close> is.\<close>

definition Alphabetical_search :: "('b, 'm) chess \<Rightarrow> 'b \<Rightarrow> error + 'm py_value" where
  "Alphabetical_search L board =
     (let moves = legal_moves L board;
          moves = sort_key (san L board) moves
      in map_sum id Move (first_item moves))"

definition FirstMove_search :: "('b, 'm) chess \<Rightarrow> 'b \<Rightarrow> error + 'm py_value" where
  "FirstMove_search L board =
     (let moves = legal_moves L board;
          moves = sort_key (uci L) moves
      in map_sum id Move (first_item moves))"

section \<open>Anarchy\<close>

text \<open>
  The state that \<^verbatim>\<open>Anarchy.search\<close> works on: the board it mutates, the engine process,
  and a record of the calls of \<^verbatim>\<open>evaluate\<close> made so far, oldest first (the candidate
  that was pushed, the time budget passed, and what came back). The record is not in
  the source; it is what a mock engine would observe. The \<^verbatim>\<open>print\<close> calls are left out.
\<close>

record ('b, 'e, 'm, 'n, 's) world =
  board :: 'b
  engine :: 'e
  evals :: "('m \<times> 'n \<times> (error + 's)) list"

definition evaluate ::
  "('n::minus) arith \<Rightarrow> ('e, 'b, 'n, 's) analysis \<Rightarrow> 'e \<Rightarrow> 'b \<Rightarrow> 'n \<Rightarrow> (error + 's) \<times> 'e" where
  "evaluate A analyse eng brd timeLimit = analyse eng brd (timeLimit - lit_0_01 A)"

text \<open>
  Lines 133 to 141: the per-move search time. \<open>n\<close> is \<^verbatim>\<open>len(legalMoves)\<close>; dividing by
  it raises \<^verbatim>\<open>ZeroDivisionError\<close> when it is zero.
\<close>

definition search_time ::
  "('n::{times,inverse,ord}) arith \<Rightarrow> 'n time_left \<Rightarrow> nat \<Rightarrow> error + 'n" where
  "search_time A timeLeft n =
     (let searchTime = lit_0_1 A in
      case timeLeft of
        Limit \<Rightarrow> Inr searchTime
      | Millis t \<Rightarrow>
          (let timeLeft = t / lit_1000 A in
           if of_len A n * searchTime > timeLeft / lit_10 A
           then (if n = 0 then Inl ZeroDivisionError
                 else Inr ((timeLeft / lit_10 A) / of_len A n))
           else Inr searchTime))"

text \<open>\<^verbatim>\<open>s[0]\<close> raises on the empty string; \<^verbatim>\<open>s[-2:]\<close> is the whole string when it is short.\<close>

definition py_first :: "string \<Rightarrow> error + char" where
  "py_first s = (case s of [] \<Rightarrow> Inl IndexError | c # _ \<Rightarrow> Inr c)"

definition py_last2 :: "string \<Rightarrow> string" where
  "py_last2 s = drop (length s - 2) s"

text \<open>
  One pass through the body of the \<^verbatim>\<open>for\<close> loop: it either leaves \<^verbatim>\<open>search\<close> (a
  \<^verbatim>\<open>return\<close> or an exception) or goes on to the next candidate with the two \<^verbatim>\<open>best\<close>
  variables and the state.
\<close>

datatype ('m, 's, 'w) flow = Done "error + 'm py_value" 'w | Next "'s option" "'m option" 'w

definition loop_body ::
  "('b, 'm) chess \<Rightarrow> ('e, 'b, 'n, 's) analysis \<Rightarrow> ('n::minus) arith \<Rightarrow> 'n \<Rightarrow> 'm \<Rightarrow>
   ('s::linorder) option \<Rightarrow> 'm option \<Rightarrow> ('b, 'e, 'm, 'n, 's) world \<Rightarrow>
   ('m, 's, ('b, 'e, 'm, 'n, 's) world) flow" where
  "loop_body L analyse A searchTime move bestEvaluation bestMove w =
     (if is_en_passant L (board w) move then Done (Inr (Move move)) w
      else if board_fen L (board w) = ''rnbqkbnr/pppppppp/8/8/8/8/PPPPPPPP/RNBQKBNR''
      then Done (Inr (Str ''e2e4'')) w
      else if board_fen L (board w) = ''rnbqkbnr/pppp1ppp/8/4p3/4P3/8/PPPP1PPP/RNBQKBNR''
      then Done (Inr (Str ''g1f3'')) w
      else if board_fen L (board w) = ''r1bqkbnr/pppp1ppp/2n5/4p3/4P3/5N2/PPPP1PPP/RNBQKB1R''
      then Done (Inr (Str ''f1b5'')) w
      else if san L (board w) move = ''Ke2'' \<or> san L (board w) move = ''Ke7''
            \<or> san L (board w) move = ''Kxe2'' \<or> san L (board w) move = ''Kxe7''
      then Done (Inr (Move move)) w
      else
        (case py_first (san L (board w) move) of
           Inl e \<Rightarrow> Done (Inl e) w
         | Inr c \<Rightarrow>
             if \<not> (c = CHR ''R'' \<and> py_last2 (san L (board w) move) = ''a4'') then
               (let w1 = w\<lparr>board := push L (board w) move\<rparr>;
                    (r, eng) = evaluate A analyse (engine w1) (board w1) searchTime;
                    w2 = w1\<lparr>engine := eng, evals := evals w1 @ [(move, searchTime, r)]\<rparr>
                in case r of
                     Inl e \<Rightarrow> Done (Inl e) w2
                   | Inr evaluation \<Rightarrow>
                       (let (bestEvaluation, bestMove) =
                              (if (case bestEvaluation of None \<Rightarrow> True
                                   | Some best \<Rightarrow> best > evaluation)
                               then (Some evaluation, Some move)
                               else (bestEvaluation, bestMove));
                            w3 = w2\<lparr>board := pop L (board w2)\<rparr>
                        in Next bestEvaluation bestMove w3))
             else Next bestEvaluation bestMove w))"

fun anarchy_loop ::
  "('b, 'm) chess \<Rightarrow> ('e, 'b, 'n, 's) analysis \<Rightarrow> ('n::minus) arith \<Rightarrow> 'n \<Rightarrow> 'm list \<Rightarrow>
   ('s::linorder) option \<Rightarrow> 'm option \<Rightarrow> ('b, 'e, 'm, 'n, 's) world \<Rightarrow>
   (error + 'm py_value) \<times> ('b, 'e, 'm, 'n, 's) world" where
  "anarchy_loop L analyse A searchTime [] bestEvaluation bestMove w =
     (Inr (case bestMove of None \<Rightarrow> NoneV | Some m \<Rightarrow> Move m), w)"
| "anarchy_loop L analyse A searchTime (move # rest) bestEvaluation bestMove w =
     (case loop_body L analyse A searchTime move bestEvaluation bestMove w of
        Done res w' \<Rightarrow> (res, w')
      | Next bestEvaluation' bestMove' w' \<Rightarrow>
          anarchy_loop L analyse A searchTime rest bestEvaluation' bestMove' w')"

definition Anarchy_search ::
  "('b, 'm) chess \<Rightarrow> ('e, 'b, 'n, 's) analysis \<Rightarrow> ('n::{times,inverse,minus,ord}) arith \<Rightarrow>
   ('b, 'e, 'm, 'n, ('s::linorder)) world \<Rightarrow> 'n time_left \<Rightarrow>
   (error + 'm py_value) \<times> ('b, 'e, 'm, 'n, 's) world" where
  "Anarchy_search L analyse A w timeLeft =
     (let legalMoves = legal_moves L (board w) in
      case search_time A timeLeft (length legalMoves) of
        Inl e \<Rightarrow> (Inl e, w)
      | Inr searchTime \<Rightarrow> anarchy_loop L analyse A searchTime legalMoves None None w)"

section \<open>Vocabulary of the properties\<close>

text \<open>The tests of the loop body on the position and on a candidate's notation.\<close>

definition opening_snapshot :: "string \<Rightarrow> bool" where
  "opening_snapshot f =
     (f = ''rnbqkbnr/pppppppp/8/8/8/8/PPPPPPPP/RNBQKBNR''
      \<or> f = ''rnbqkbnr/pppp1ppp/8/4p3/4P3/8/PPPP1PPP/RNBQKBNR''
      \<or> f = ''r1bqkbnr/pppp1ppp/2n5/4p3/4P3/5N2/PPPP1PPP/RNBQKB1R'')"

definition forced_king :: "string \<Rightarrow> bool" where
  "forced_king s = (s = ''Ke2'' \<or> s = ''Ke7'' \<or> s = ''Kxe2'' \<or> s = ''Kxe7'')"

definition banned :: "string \<Rightarrow> bool" where
  "banned s = (case py_first s of Inl e \<Rightarrow> False
               | Inr c \<Rightarrow> c = CHR ''R'' \<and> py_last2 s = ''a4'')"

text \<open>
  The calls of \<^verbatim>\<open>evaluate\<close> that a run of \<^verbatim>\<open>search\<close> has added to the record, and the
  candidates and budgets in them.
\<close>

definition new_evals ::
  "('b, 'e, 'm, 'n, 's) world \<Rightarrow> ('b, 'e, 'm, 'n, 's) world \<Rightarrow> ('m \<times> 'n \<times> (error + 's)) list" where
  "new_evals w w' = drop (length (evals w)) (evals w')"

definition candidate :: "'m \<times> 'n \<times> (error + 's) \<Rightarrow> 'm" where
  "candidate e = fst e"

definition budget :: "'m \<times> 'n \<times> (error + 's) \<Rightarrow> 'n" where
  "budget e = fst (snd e)"

text \<open>
  The scores that came back, with their candidates, and the choice that lines 178 to 180
  make over a sequence of scores: the two \<^verbatim>\<open>best\<close> variables after the sequence.
\<close>

fun scored :: "('m \<times> 'n \<times> (error + 's)) list \<Rightarrow> ('m \<times> 's) list" where
  "scored [] = []"
| "scored ((m, t, Inl e) # xs) = scored xs"
| "scored ((m, t, Inr s) # xs) = (m, s) # scored xs"

fun select ::
  "('s::linorder) option \<Rightarrow> 'm option \<Rightarrow> ('m \<times> 's) list \<Rightarrow> 's option \<times> 'm option" where
  "select bestEvaluation bestMove [] = (bestEvaluation, bestMove)"
| "select bestEvaluation bestMove ((m, evaluation) # xs) =
     (if (case bestEvaluation of None \<Rightarrow> True | Some best \<Rightarrow> best > evaluation)
      then select (Some evaluation) (Some m) xs
      else select bestEvaluation bestMove xs)"

definition returned :: "'m option \<Rightarrow> 'm py_value" where
  "returned bestMove = (case bestMove of None \<Rightarrow> NoneV | Some m \<Rightarrow> Move m)"

text \<open>The per-move search time as the specification words it, for a budget in seconds.\<close>

definition shrink_law :: "('n::{times,inverse,ord}) arith \<Rightarrow> 'n \<Rightarrow> nat \<Rightarrow> 'n" where
  "shrink_law A T N =
     (if of_len A N * lit_0_1 A > T / lit_10 A then (T / lit_10 A) / of_len A N
      else lit_0_1 A)"

section \<open>A tabulated chess library and a mock engine\<close>

text \<open>
  Concrete inputs need a concrete library. A tabulated board lists what the rules
  library reports at one position: the placement string, the side to move, and the legal
  moves in enumeration order, each with its coordinate notation, its algebraic notation
  and whether it is an en-passant capture. Pushing a move puts the board under the move;
  popping takes it back. The mock engine answers from a table of scores indexed by the
  coordinate notation of the move just pushed (0 when the move is not listed), counts
  its calls, and never fails.
\<close>

record tmove =
  uci_str :: string
  san_str :: string
  ep :: bool

datatype tboard =
  TBoard (fen: string) (white: bool) (moves: "tmove list") (under: "(tmove \<times> tboard) option")

definition mv :: "string \<Rightarrow> string \<Rightarrow> tmove" where
  "mv u s = \<lparr>uci_str = u, san_str = s, ep = False\<rparr>"

definition table_chess :: "(tboard, tmove) chess" where
  "table_chess =
     \<lparr>legal_moves = moves, turn = white, board_fen = fen,
      san = (\<lambda>b m. san_str m), uci = uci_str,
      is_en_passant = (\<lambda>b m. ep m),
      push = (\<lambda>b m. TBoard [] (\<not> white b) [] (Some (m, b))),
      pop = (\<lambda>b. case under b of None \<Rightarrow> b | Some (m, b') \<Rightarrow> b')\<rparr>"

definition mock_analyse :: "(string \<times> int) list \<Rightarrow> (nat, tboard, real, int) analysis" where
  "mock_analyse table eng b timeLimit =
     (case under b of
        None \<Rightarrow> (Inr 0, Suc eng)
      | Some (m, b') \<Rightarrow>
          (case map_of table (uci_str m) of
             None \<Rightarrow> (Inr 0, Suc eng)
           | Some s \<Rightarrow> (Inr s, Suc eng)))"

definition real_arith :: "real arith" where
  "real_arith = \<lparr>lit_0_1 = 1 / 10, lit_0_01 = 1 / 100, lit_10 = 10, lit_1000 = 1000, of_len = real\<rparr>"

definition start_world :: "tboard \<Rightarrow> (tboard, nat, tmove, real, int) world" where
  "start_world b = \<lparr>board = b, engine = 0, evals = []\<rparr>"

text \<open>
  The position after 1.e3 e5 2.e4, Black to move
  (\<^verbatim>\<open>rnbqkbnr/pppp1ppp/8/4p3/4P3/8/PPPP1PPP/RNBQKBNR b KQkq - 0 2\<close>). Its placement is
  that of the position after 1.e4 e5.
\<close>

definition pos_e3_e5_e4 :: tboard where
  "pos_e3_e5_e4 =
     TBoard ''rnbqkbnr/pppp1ppp/8/4p3/4P3/8/PPPP1PPP/RNBQKBNR'' False
       [mv ''g8e7'' ''Ne7'', mv ''g8h6'' ''Nh6'', mv ''g8f6'' ''Nf6'',
        mv ''f8e7'' ''Be7'', mv ''f8d6'' ''Bd6'', mv ''f8c5'' ''Bc5'',
        mv ''f8b4'' ''Bb4'', mv ''f8a3'' ''Ba3'', mv ''e8e7'' ''Ke7'',
        mv ''d8e7'' ''Qe7'', mv ''d8f6'' ''Qf6'', mv ''d8g5'' ''Qg5'',
        mv ''d8h4'' ''Qh4'', mv ''b8c6'' ''Nc6'', mv ''b8a6'' ''Na6'',
        mv ''h7h6'' ''h6'', mv ''g7g6'' ''g6'', mv ''f7f6'' ''f6'', mv ''d7d6'' ''d6'',
        mv ''c7c6'' ''c6'', mv ''b7b6'' ''b6'', mv ''a7a6'' ''a6'',
        mv ''h7h5'' ''h5'', mv ''g7g5'' ''g5'', mv ''f7f5'' ''f5'', mv ''d7d5'' ''d5'',
        mv ''c7c5'' ''c5'', mv ''b7b5'' ''b5'', mv ''a7a5'' ''a5'']
       None"

text \<open>
  The position after 1.e4 a6 2.e5 d5, White to move
  (\<^verbatim>\<open>rnbqkbnr/1pp1pppp/p7/3pP3/8/8/PPPP1PPP/RNBQKBNR w KQkq d6 0 3\<close>): the capture
  exd6 is en passant, and the king can go to e2. The piece moves are enumerated before
  the pawn moves, the en-passant capture last.
\<close>

definition pos_e4_a6_e5_d5 :: tboard where
  "pos_e4_a6_e5_d5 =
     TBoard ''rnbqkbnr/1pp1pppp/p7/3pP3/8/8/PPPP1PPP/RNBQKBNR'' True
       [mv ''g1h3'' ''Nh3'', mv ''g1f3'' ''Nf3'', mv ''g1e2'' ''Ne2'',
        mv ''f1a6'' ''Bxa6'', mv ''f1b5'' ''Bb5+'', mv ''f1c4'' ''Bc4'',
        mv ''f1d3'' ''Bd3'', mv ''f1e2'' ''Be2'', mv ''e1e2'' ''Ke2'',
        mv ''d1h5'' ''Qh5'', mv ''d1g4'' ''Qg4'', mv ''d1f3'' ''Qf3'', mv ''d1e2'' ''Qe2'',
        mv ''b1c3'' ''Nc3'', mv ''b1a3'' ''Na3'', mv ''e5e6'' ''e6'',
        mv ''h2h3'' ''h3'', mv ''g2g3'' ''g3'', mv ''f2f3'' ''f3'', mv ''d2d3'' ''d3'',
        mv ''c2c3'' ''c3'', mv ''b2b3'' ''b3'', mv ''a2a3'' ''a3'',
        mv ''h2h4'' ''h4'', mv ''g2g4'' ''g4'', mv ''f2f4'' ''f4'', mv ''d2d4'' ''d4'',
        mv ''c2c4'' ''c4'', mv ''b2b4'' ''b4'', mv ''a2a4'' ''a4'',
        \<lparr>uci_str = ''e5d6'', san_str = ''exd6'', ep = True\<rparr>]
       None"

text \<open>
  \<^verbatim>\<open>4k3/8/8/3pP3/8/8/8/7K w - d6 0 1\<close>: king h1 and pawn e5 against king e8 and a pawn
  that has just gone d7-d5. No king move reaches e2.
\<close>

definition pos_ep_endgame :: tboard where
  "pos_ep_endgame =
     TBoard ''4k3/8/8/3pP3/8/8/8/7K'' True
       [mv ''h1h2'' ''Kh2'', mv ''h1g2'' ''Kg2'', mv ''h1g1'' ''Kg1'', mv ''e5e6'' ''e6'',
        \<lparr>uci_str = ''e5d6'', san_str = ''exd6'', ep = True\<rparr>]
       None"

text \<open>
  \<^verbatim>\<open>r7/8/1k6/8/3R4/8/1P6/KR4B1 w - - 0 1\<close>: the white king is in check from the rook
  on a8 and has no square; the only legal move is the rook from d4 to a4, which uncovers
  the bishop's check of the king on b6, so its notation carries the check sign.
\<close>

definition pos_Ra4_check :: tboard where
  "pos_Ra4_check = TBoard ''r7/8/1k6/8/3R4/8/1P6/KR4B1'' True [mv ''d4a4'' ''Ra4+''] None"

text \<open>
  \<^verbatim>\<open>k7/2K5/8/8/7R/8/8/8 w - - 0 1\<close>: king c7 and rook h4 against the king on a8. The
  rook's move to a4 is mate, so its notation carries the mate sign. The mock scores give
  the mated position the lowest score, as an engine does.
\<close>

definition pos_Ra4_mate :: tboard where
  "pos_Ra4_mate =
     TBoard ''k7/2K5/8/8/7R/8/8/8'' True
       [mv ''c7d8'' ''Kd8'', mv ''c7c8'' ''Kc8'', mv ''c7d7'' ''Kd7'', mv ''c7d6'' ''Kd6'',
        mv ''c7c6'' ''Kc6'', mv ''c7b6'' ''Kb6'',
        mv ''h4h8'' ''Rh8+'', mv ''h4h7'' ''Rh7'', mv ''h4h6'' ''Rh6'', mv ''h4h5'' ''Rh5'',
        mv ''h4g4'' ''Rg4'', mv ''h4f4'' ''Rf4'', mv ''h4e4'' ''Re4'', mv ''h4d4'' ''Rd4'',
        mv ''h4c4'' ''Rc4'', mv ''h4b4'' ''Rb4'', mv ''h4a4'' ''Ra4#'',
        mv ''h4h3'' ''Rh3'', mv ''h4h2'' ''Rh2'', mv ''h4h1'' ''Rh1'']
       None"

definition mate_scores :: "(string \<times> int) list" where
  "mate_scores = [(''h4a4'', - 100000), (''h4h8'', - 650), (''c7b6'', - 640)]"

text \<open>
  \<^verbatim>\<open>r6k/8/8/8/3R4/8/1P6/KR6 w - - 0 1\<close>: the same check, and interposing on a4 is the
  only legal move; it gives no check.
\<close>

definition pos_Ra4_only :: tboard where
  "pos_Ra4_only = TBoard ''r6k/8/8/8/3R4/8/1P6/KR6'' True [mv ''d4a4'' ''Ra4''] None"

text \<open>\<^verbatim>\<open>7k/8/8/8/8/8/6PP/7K w - - 0 1\<close>: five legal moves, none of them special.\<close>

definition pos_five :: tboard where
  "pos_five =
     TBoard ''7k/8/8/8/8/8/6PP/7K'' True
       [mv ''h1g1'' ''Kg1'', mv ''h2h3'' ''h3'', mv ''g2g3'' ''g3'',
        mv ''h2h4'' ''h4'', mv ''g2g4'' ''g4'']
       None"

definition five_scores :: "(string \<times> int) list" where
  "five_scores = [(''h1g1'', 30), (''h2h3'', 10), (''g2g3'', 10), (''h2h4'', 25), (''g2g4'', 40)]"

text \<open>The initial position, and the positions after 1.e4 e5 and after 1.e4 e5 2.Nf3 Nc6.\<close>

definition pos_initial :: tboard where
  "pos_initial =
     TBoard ''rnbqkbnr/pppppppp/8/8/8/8/PPPPPPPP/RNBQKBNR'' True
       [mv ''g1h3'' ''Nh3'', mv ''g1f3'' ''Nf3'', mv ''b1c3'' ''Nc3'', mv ''b1a3'' ''Na3'',
        mv ''h2h3'' ''h3'', mv ''g2g3'' ''g3'', mv ''f2f3'' ''f3'', mv ''e2e3'' ''e3'',
        mv ''d2d3'' ''d3'', mv ''c2c3'' ''c3'', mv ''b2b3'' ''b3'', mv ''a2a3'' ''a3'',
        mv ''h2h4'' ''h4'', mv ''g2g4'' ''g4'', mv ''f2f4'' ''f4'', mv ''e2e4'' ''e4'',
        mv ''d2d4'' ''d4'', mv ''c2c4'' ''c4'', mv ''b2b4'' ''b4'', mv ''a2a4'' ''a4'']
       None"

definition pos_e4_e5 :: tboard where
  "pos_e4_e5 =
     TBoard ''rnbqkbnr/pppp1ppp/8/4p3/4P3/8/PPPP1PPP/RNBQKBNR'' True
       [mv ''g1h3'' ''Nh3'', mv ''g1f3'' ''Nf3'', mv ''g1e2'' ''Ne2'',
        mv ''f1a6'' ''Ba6'', mv ''f1b5'' ''Bb5'', mv ''f1c4'' ''Bc4'',
        mv ''f1d3'' ''Bd3'', mv ''f1e2'' ''Be2'', mv ''e1e2'' ''Ke2'',
        mv ''d1h5'' ''Qh5'', mv ''d1g4'' ''Qg4'', mv ''d1f3'' ''Qf3'', mv ''d1e2'' ''Qe2'',
        mv ''b1c3'' ''Nc3'', mv ''b1a3'' ''Na3'',
        mv ''h2h3'' ''h3'', mv ''g2g3'' ''g3'', mv ''f2f3'' ''f3'', mv ''d2d3'' ''d3'',
        mv ''c2c3'' ''c3'', mv ''b2b3'' ''b3'', mv ''a2a3'' ''a3'',
        mv ''h2h4'' ''h4'', mv ''g2g4'' ''g4'', mv ''f2f4'' ''f4'', mv ''d2d4'' ''d4'',
        mv ''c2c4'' ''c4'', mv ''b2b4'' ''b4'', mv ''a2a4'' ''a4'']
       None"

definition pos_e4_e5_Nf3_Nc6 :: tboard where
  "pos_e4_e5_Nf3_Nc6 =
     TBoard ''r1bqkbnr/pppp1ppp/2n5/4p3/4P3/5N2/PPPP1PPP/RNBQKB1R'' True
       [mv ''f3g5'' ''Ng5'', mv ''f3e5'' ''Nxe5'', mv ''f3h4'' ''Nh4'', mv ''f3d4'' ''Nd4'',
        mv ''f3g1'' ''Ng1'', mv ''h1g1'' ''Rg1'',
        mv ''f1a6'' ''Ba6'', mv ''f1b5'' ''Bb5'', mv ''f1c4'' ''Bc4'',
        mv ''f1d3'' ''Bd3'', mv ''f1e2'' ''Be2'', mv ''e1e2'' ''Ke2'', mv ''d1e2'' ''Qe2'',
        mv ''b1c3'' ''Nc3'', mv ''b1a3'' ''Na3'',
        mv ''h2h3'' ''h3'', mv ''g2g3'' ''g3'', mv ''d2d3'' ''d3'',
        mv ''c2c3'' ''c3'', mv ''b2b3'' ''b3'', mv ''a2a3'' ''a3'',
        mv ''h2h4'' ''h4'', mv ''g2g4'' ''g4'', mv ''d2d4'' ''d4'',
        mv ''c2c4'' ''c4'', mv ''b2b4'' ''b4'', mv ''a2a4'' ''a4'']
       None"

section \<open>The loop body, case by case\<close>

lemma evaluate_cases:
  obtains (fails) e eng where "evaluate A an en b st = (Inl e, eng)"
  | (scores) ev eng where "evaluate A an en b st = (Inr ev, eng)"
  by (cases "evaluate A an en b st"; case_tac a; auto)

lemma loop_body_en_passant:
  "is_en_passant L (board w) m \<Longrightarrow> loop_body L an A st m bE bM w = Done (Inr (Move m)) w"
  by (simp add: loop_body_def)

lemma loop_body_forced_king:
  "\<not> is_en_passant L (board w) m \<Longrightarrow> \<not> opening_snapshot (board_fen L (board w)) \<Longrightarrow>
   forced_king (san L (board w) m) \<Longrightarrow> loop_body L an A st m bE bM w = Done (Inr (Move m)) w"
  by (simp add: loop_body_def opening_snapshot_def forced_king_def)

lemma loop_body_banned:
  "\<not> is_en_passant L (board w) m \<Longrightarrow> \<not> opening_snapshot (board_fen L (board w)) \<Longrightarrow>
   banned (san L (board w) m) \<Longrightarrow> loop_body L an A st m bE bM w = Next bE bM w"
  by (auto simp: loop_body_def opening_snapshot_def banned_def py_first_def split: list.splits sum.splits)

lemma loop_body_index_error:
  "\<not> is_en_passant L (board w) m \<Longrightarrow> \<not> opening_snapshot (board_fen L (board w)) \<Longrightarrow>
   san L (board w) m = [] \<Longrightarrow> loop_body L an A st m bE bM w = Done (Inl IndexError) w"
  by (auto simp: loop_body_def opening_snapshot_def py_first_def)

lemma loop_body_engine_error:
  "\<not> is_en_passant L (board w) m \<Longrightarrow> \<not> opening_snapshot (board_fen L (board w)) \<Longrightarrow>
   \<not> forced_king (san L (board w) m) \<Longrightarrow> san L (board w) m \<noteq> [] \<Longrightarrow>
   \<not> banned (san L (board w) m) \<Longrightarrow>
   evaluate A an (engine w) (push L (board w) m) st = (Inl e, eng) \<Longrightarrow>
   loop_body L an A st m bE bM w =
     Done (Inl e) (w\<lparr>board := push L (board w) m, engine := eng,
                     evals := evals w @ [(m, st, Inl e)]\<rparr>)"
  by (auto simp: loop_body_def opening_snapshot_def forced_king_def banned_def py_first_def
      split: list.splits)

lemma loop_body_scored:
  "\<not> is_en_passant L (board w) m \<Longrightarrow> \<not> opening_snapshot (board_fen L (board w)) \<Longrightarrow>
   \<not> forced_king (san L (board w) m) \<Longrightarrow> san L (board w) m \<noteq> [] \<Longrightarrow>
   \<not> banned (san L (board w) m) \<Longrightarrow>
   evaluate A an (engine w) (push L (board w) m) st = (Inr ev, eng) \<Longrightarrow>
   loop_body L an A st m bE bM w =
     Next (if (case bE of None \<Rightarrow> True | Some best \<Rightarrow> best > ev) then Some ev else bE)
          (if (case bE of None \<Rightarrow> True | Some best \<Rightarrow> best > ev) then Some m else bM)
          (w\<lparr>board := pop L (push L (board w) m), engine := eng,
             evals := evals w @ [(m, st, Inr ev)]\<rparr>)"
  by (auto simp: loop_body_def opening_snapshot_def forced_king_def banned_def py_first_def
      split: list.splits)

lemma loop_body_opening:
  "\<not> is_en_passant L (board w) m \<Longrightarrow> opening_snapshot (board_fen L (board w)) \<Longrightarrow>
   \<exists>s. loop_body L an A st m bE bM w = Done (Inr (Str s)) w"
  by (auto simp: loop_body_def opening_snapshot_def)

lemma loop_body_cases:
  obtains (ep) "is_en_passant L (board w) m" "loop_body L an A st m bE bM w = Done (Inr (Move m)) w"
  | (book) s where "\<not> is_en_passant L (board w) m" "opening_snapshot (board_fen L (board w))"
      "loop_body L an A st m bE bM w = Done (Inr (Str s)) w"
  | (king) "\<not> is_en_passant L (board w) m" "\<not> opening_snapshot (board_fen L (board w))"
      "forced_king (san L (board w) m)"
      "loop_body L an A st m bE bM w = Done (Inr (Move m)) w"
  | (empty) "loop_body L an A st m bE bM w = Done (Inl IndexError) w"
  | (skip) "\<not> is_en_passant L (board w) m" "\<not> opening_snapshot (board_fen L (board w))"
      "banned (san L (board w) m)"
      "loop_body L an A st m bE bM w = Next bE bM w"
  | (fail) e eng where "\<not> banned (san L (board w) m)"
      "loop_body L an A st m bE bM w =
         Done (Inl e) (w\<lparr>board := push L (board w) m, engine := eng,
                         evals := evals w @ [(m, st, Inl e)]\<rparr>)"
  | (score) ev eng where
      "\<not> is_en_passant L (board w) m" "\<not> opening_snapshot (board_fen L (board w))"
      "\<not> forced_king (san L (board w) m)"
      "\<not> banned (san L (board w) m)"
      "evaluate A an (engine w) (push L (board w) m) st = (Inr ev, eng)"
      "loop_body L an A st m bE bM w =
         Next (if (case bE of None \<Rightarrow> True | Some best \<Rightarrow> best > ev) then Some ev else bE)
              (if (case bE of None \<Rightarrow> True | Some best \<Rightarrow> best > ev) then Some m else bM)
              (w\<lparr>board := pop L (push L (board w) m), engine := eng,
                 evals := evals w @ [(m, st, Inr ev)]\<rparr>)"
proof (cases "is_en_passant L (board w) m")
  case True
  show ?thesis using ep[OF True loop_body_en_passant[OF True]] .
next
  case nep: False
  show ?thesis
  proof (cases "opening_snapshot (board_fen L (board w))")
    case True
    from loop_body_opening[OF nep True, of an A st bE bM] obtain s
      where "loop_body L an A st m bE bM w = Done (Inr (Str s)) w" by blast
    from book[OF nep True this] show ?thesis .
  next
    case nbook: False
    show ?thesis
    proof (cases "forced_king (san L (board w) m)")
      case True
      show ?thesis using king[OF nep nbook True loop_body_forced_king[OF nep nbook True]] .
    next
      case nking: False
      show ?thesis
      proof (cases "san L (board w) m = []")
        case True
        show ?thesis using empty[OF loop_body_index_error[OF nep nbook True]] .
      next
        case nempty: False
        show ?thesis
        proof (cases "banned (san L (board w) m)")
          case True
          show ?thesis using skip[OF nep nbook True loop_body_banned[OF nep nbook True]] .
        next
          case nbanned: False
          show ?thesis
          proof (cases rule: evaluate_cases[of A an "engine w" "push L (board w) m" st])
            case (fails e eng)
            show ?thesis
              using fail[OF nbanned loop_body_engine_error[OF nep nbook nking nempty nbanned fails]] .
          next
            case (scores ev eng)
            show ?thesis
              using score[OF nep nbook nking nbanned scores
                  loop_body_scored[OF nep nbook nking nempty nbanned scores]] .
          qed
        qed
      qed
    qed
  qed
qed

section \<open>The choice among the scores\<close>

lemma select_Some:
  "snd (select (Some be) (Some bm) xs) = Some m' \<Longrightarrow>
   (m' = bm \<and> (\<forall>x\<in>set xs. be \<le> snd x)) \<or>
   (\<exists>pre m s post. xs = pre @ (m, s) # post \<and> m' = m \<and> s < be
        \<and> (\<forall>x\<in>set pre. s < snd x) \<and> (\<forall>x\<in>set post. s \<le> snd x))"
proof (induction xs arbitrary: be bm)
  case Nil
  then show ?case by simp
next
  case (Cons x xs)
  obtain m1 s1 where x: "x = (m1, s1)" by (cases x)
  show ?case
  proof (cases "s1 < be")
    case True
    with Cons.prems x have "snd (select (Some s1) (Some m1) xs) = Some m'" by simp
    from Cons.IH[OF this] show ?thesis
    proof
      assume h: "m' = m1 \<and> (\<forall>x\<in>set xs. s1 \<le> snd x)"
      have "x # xs = [] @ (m1, s1) # xs" using x by simp
      with h True show ?thesis by (metis empty_iff list.set(1))
    next
      assume "\<exists>pre m s post. xs = pre @ (m, s) # post \<and> m' = m \<and> s < s1
          \<and> (\<forall>x\<in>set pre. s < snd x) \<and> (\<forall>x\<in>set post. s \<le> snd x)"
      then obtain pre m s post where d: "xs = pre @ (m, s) # post" "m' = m" "s < s1"
        "\<forall>x\<in>set pre. s < snd x" "\<forall>x\<in>set post. s \<le> snd x" by blast
      have "x # xs = (x # pre) @ (m, s) # post" using d(1) by simp
      moreover have "\<forall>y\<in>set (x # pre). s < snd y" using d(3,4) x by simp
      moreover have "s < be" using d(3) True by simp
      ultimately show ?thesis using d(2,5) by blast
    qed
  next
    case False
    with Cons.prems x have "snd (select (Some be) (Some bm) xs) = Some m'" by simp
    from Cons.IH[OF this] show ?thesis
    proof
      assume "m' = bm \<and> (\<forall>x\<in>set xs. be \<le> snd x)"
      with False x show ?thesis by auto
    next
      assume "\<exists>pre m s post. xs = pre @ (m, s) # post \<and> m' = m \<and> s < be
          \<and> (\<forall>x\<in>set pre. s < snd x) \<and> (\<forall>x\<in>set post. s \<le> snd x)"
      then obtain pre m s post where d: "xs = pre @ (m, s) # post" "m' = m" "s < be"
        "\<forall>x\<in>set pre. s < snd x" "\<forall>x\<in>set post. s \<le> snd x" by blast
      have "x # xs = (x # pre) @ (m, s) # post" using d(1) by simp
      moreover have "\<forall>y\<in>set (x # pre). s < snd y" using d(3,4) x False by auto
      ultimately show ?thesis using d(2,3,5) by blast
    qed
  qed
qed

lemma select_Some_is_Some: "\<exists>m. snd (select (Some be) (Some bm) xs) = Some m"
  by (induction xs arbitrary: be bm) auto

lemma select_first_best:
  assumes "xs \<noteq> []"
  shows "\<exists>pre m s post. xs = pre @ (m, s) # post \<and> snd (select None None xs) = Some m
        \<and> (\<forall>x\<in>set pre. s < snd x) \<and> (\<forall>x\<in>set post. s \<le> snd x)"
proof -
  from assms obtain m1 s1 rest where xs: "xs = (m1, s1) # rest" by (cases xs) auto
  obtain m' where m': "snd (select (Some s1) (Some m1) rest) = Some m'"
    using select_Some_is_Some[of s1 m1 rest] by blast
  have sel: "snd (select None None xs) = Some m'" using xs m' by simp
  from select_Some[OF m'] show ?thesis
  proof
    assume "m' = m1 \<and> (\<forall>x\<in>set rest. s1 \<le> snd x)"
    then have "xs = [] @ (m1, s1) # rest \<and> snd (select None None xs) = Some m1
        \<and> (\<forall>x\<in>set []. s1 < snd x) \<and> (\<forall>x\<in>set rest. s1 \<le> snd x)"
      using xs sel by simp
    then show ?thesis by blast
  next
    assume "\<exists>pre m s post. rest = pre @ (m, s) # post \<and> m' = m \<and> s < s1
          \<and> (\<forall>x\<in>set pre. s < snd x) \<and> (\<forall>x\<in>set post. s \<le> snd x)"
    then obtain pre m s post where d: "rest = pre @ (m, s) # post" "m' = m" "s < s1"
        "\<forall>x\<in>set pre. s < snd x" "\<forall>x\<in>set post. s \<le> snd x" by blast
    have "xs = ((m1, s1) # pre) @ (m, s) # post" using d(1) xs by simp
    moreover have "\<forall>y\<in>set ((m1, s1) # pre). s < snd y" using d(3,4) by simp
    ultimately show ?thesis using sel d(2,5) by blast
  qed
qed

section \<open>Invariants of the candidate loop\<close>

lemma anarchy_loop_evals:
  "anarchy_loop L an A st ms bE bM w = (res, w') \<Longrightarrow>
   \<exists>tr. evals w' = evals w @ tr \<and> (\<forall>e\<in>set tr. budget e = st \<and> candidate e \<in> set ms)"
proof (induction ms arbitrary: bE bM w)
  case Nil
  then show ?case by simp
next
  case (Cons m ms)
  note run = Cons.prems
  have stay: "w' = w \<Longrightarrow> ?case" by simp
  have one: "\<exists>tr. evals w' = evals w @ tr
        \<and> (\<forall>e\<in>set tr. budget e = st \<and> candidate e \<in> set (m # ms))"
    if "evals w' = evals w @ [(m, st, x)]" for x
  proof -
    have "\<forall>e\<in>set [(m, st, x)]. budget e = st \<and> candidate e \<in> set (m # ms)"
      by (simp add: budget_def candidate_def)
    with that show ?thesis by blast
  qed
  have more: "\<exists>tr. evals w' = evals w @ tr
        \<and> (\<forall>e\<in>set tr. budget e = st \<and> candidate e \<in> set (m # ms))"
    if "anarchy_loop L an A st ms bE1 bM1 w1 = (res, w')" "evals w1 = evals w @ pre"
       "\<forall>e\<in>set pre. budget e = st \<and> candidate e \<in> set (m # ms)" for bE1 bM1 w1 pre
  proof -
    from Cons.IH[OF that(1)] obtain tr where tr: "evals w' = evals w1 @ tr"
      "\<forall>e\<in>set tr. budget e = st \<and> candidate e \<in> set ms" by blast
    have "evals w' = evals w @ (pre @ tr)" using tr(1) that(2) by simp
    moreover have "\<forall>e\<in>set (pre @ tr). budget e = st \<and> candidate e \<in> set (m # ms)"
      using tr(2) that(3) by auto
    ultimately show ?thesis by blast
  qed
  show ?case
  proof (cases rule: loop_body_cases[where L=L and w=w and m=m and an=an and A=A and st=st
      and bE=bE and bM=bM])
    case ep
    with run show ?thesis using stay by simp
  next
    case (book s)
    with run show ?thesis using stay by simp
  next
    case king
    with run show ?thesis using stay by simp
  next
    case empty
    with run show ?thesis using stay by simp
  next
    case skip
    with run have "anarchy_loop L an A st ms bE bM w = (res, w')" by simp
    from more[OF this, of "[]"] show ?thesis by simp
  next
    case (fail e eng)
    with run have "evals w' = evals w @ [(m, st, Inl e)]" by auto
    from one[OF this] show ?thesis .
  next
    case (score ev eng)
    let ?w1 = "w\<lparr>board := pop L (push L (board w) m), engine := eng,
                 evals := evals w @ [(m, st, Inr ev)]\<rparr>"
    from score(6) run obtain bE1 bM1 where
      "anarchy_loop L an A st ms bE1 bM1 ?w1 = (res, w')" by simp
    from more[OF this, of "[(m, st, Inr ev)]"] show ?thesis
      by (simp add: budget_def candidate_def)
  qed
qed

lemma anarchy_loop_board:
  assumes "\<forall>m\<in>set ms. pop L (push L b m) = b"
    and "board w = b"
    and "anarchy_loop L an A st ms bE bM w = (Inr r, w')"
  shows "board w' = b"
  using assms
proof (induction ms arbitrary: bE bM w)
  case Nil
  then show ?case by simp
next
  case (Cons m ms)
  note run = Cons.prems(3)
  have rest: "\<forall>m\<in>set ms. pop L (push L b m) = b" using Cons.prems(1) by simp
  have here: "pop L (push L (board w) m) = b" using Cons.prems(1,2) by simp
  show ?case
  proof (cases rule: loop_body_cases[where L=L and w=w and m=m and an=an and A=A and st=st
      and bE=bE and bM=bM])
    case ep
    with run Cons.prems(2) show ?thesis by simp
  next
    case (book s)
    with run Cons.prems(2) show ?thesis by simp
  next
    case king
    with run Cons.prems(2) show ?thesis by simp
  next
    case empty
    with run show ?thesis by simp
  next
    case skip
    with run have "anarchy_loop L an A st ms bE bM w = (Inr r, w')" by simp
    from Cons.IH[OF rest Cons.prems(2) this] show ?thesis .
  next
    case (fail e eng)
    with run show ?thesis by simp
  next
    case (score ev eng)
    let ?w1 = "w\<lparr>board := pop L (push L (board w) m), engine := eng,
                 evals := evals w @ [(m, st, Inr ev)]\<rparr>"
    from score(6) run obtain bE1 bM1 where
      nxt: "anarchy_loop L an A st ms bE1 bM1 ?w1 = (Inr r, w')" by simp
    have "board ?w1 = b" using here by simp
    from Cons.IH[OF rest this nxt] show ?thesis .
  qed
qed

lemma anarchy_loop_all_banned:
  assumes "\<forall>m\<in>set ms. \<not> is_en_passant L (board w) m"
    and "\<not> opening_snapshot (board_fen L (board w))"
    and "\<forall>m\<in>set ms. banned (san L (board w) m)"
  shows "anarchy_loop L an A st ms bE bM w = (Inr (returned bM), w)"
  using assms
proof (induction ms)
  case Nil
  then show ?case by (simp add: returned_def)
next
  case (Cons m ms)
  have "loop_body L an A st m bE bM w = Next bE bM w"
    using loop_body_banned[of L w m an A st bE bM] Cons.prems by simp
  moreover have "anarchy_loop L an A st ms bE bM w = (Inr (returned bM), w)"
    using Cons by simp
  ultimately show ?case by simp
qed

section \<open>The search time\<close>

lemma search_time_law:
  "0 < n \<Longrightarrow> search_time A (Millis t) n = Inr (shrink_law A (t / lit_1000 A) n)"
  by (simp add: search_time_def shrink_law_def Let_def)

lemma search_time_Limit: "search_time A Limit n = Inr (lit_0_1 A)"
  by (simp add: search_time_def)

lemma search_time_returns: "0 < n \<Longrightarrow> \<exists>st. search_time A timeLeft n = Inr st"
  by (cases timeLeft) (simp_all add: search_time_law search_time_Limit)

lemma new_evals_append: "evals w' = evals w @ tr \<Longrightarrow> new_evals w w' = tr"
  by (simp add: new_evals_def)

lemma map_eq_replicate: "\<forall>e\<in>set xs. f e = c \<Longrightarrow> map f xs = replicate (length xs) c"
  by (induction xs) auto

section \<open>Runs on the tabulated positions\<close>

lemmas table_defs = table_chess_def mock_analyse_def real_arith_def start_world_def mv_def
lemmas run_defs = Anarchy_search_def search_time_def loop_body_def evaluate_def
  py_first_def py_last2_def Let_def

lemma run_five:
  "Anarchy_search table_chess (mock_analyse five_scores) real_arith (start_world pos_five) (Millis 60000)
     = (Inr (Move (mv ''h2h3'' ''h3'')),
        \<lparr>board = pos_five, engine = 5,
         evals = [(mv ''h1g1'' ''Kg1'', 1 / 10, Inr 30), (mv ''h2h3'' ''h3'', 1 / 10, Inr 10),
                  (mv ''g2g3'' ''g3'', 1 / 10, Inr 10), (mv ''h2h4'' ''h4'', 1 / 10, Inr 25),
                  (mv ''g2g4'' ''g4'', 1 / 10, Inr 40)]\<rparr>)"
  by (simp add: run_defs table_defs pos_five_def five_scores_def)

lemma run_five_short:
  "Anarchy_search table_chess (mock_analyse five_scores) real_arith (start_world pos_five) (Millis 1000)
     = (Inr (Move (mv ''h2h3'' ''h3'')),
        \<lparr>board = pos_five, engine = 5,
         evals = [(mv ''h1g1'' ''Kg1'', 1 / 50, Inr 30), (mv ''h2h3'' ''h3'', 1 / 50, Inr 10),
                  (mv ''g2g3'' ''g3'', 1 / 50, Inr 10), (mv ''h2h4'' ''h4'', 1 / 50, Inr 25),
                  (mv ''g2g4'' ''g4'', 1 / 50, Inr 40)]\<rparr>)"
  by (simp add: run_defs table_defs pos_five_def five_scores_def)

section \<open>Candidates scored before the loop leaves\<close>

lemma anarchy_loop_prefix:
  assumes "\<forall>m\<in>set pre. pop L (push L b m) = b"
    and "\<forall>m\<in>set pre. \<not> is_en_passant L b m"
    and "\<not> opening_snapshot (board_fen L b)"
    and "\<forall>m\<in>set pre. \<not> forced_king (san L b m)"
    and "board w = b"
    and "anarchy_loop L an A st (pre @ rest) bE bM w = (Inr r, w')"
  shows "\<exists>tr w1. evals w1 = evals w @ tr \<and> board w1 = b
          \<and> map fst (scored tr) = filter (\<lambda>m. \<not> banned (san L b m)) pre
          \<and> map candidate tr = map fst (scored tr)
          \<and> anarchy_loop L an A st rest (fst (select bE bM (scored tr)))
                (snd (select bE bM (scored tr))) w1 = (Inr r, w')"
  using assms
proof (induction pre arbitrary: bE bM w)
  case Nil
  have "evals w = evals w @ [] \<and> board w = b
      \<and> map fst (scored []) = filter (\<lambda>m. \<not> banned (san L b m)) []
      \<and> map candidate [] = map fst (scored [])
      \<and> anarchy_loop L an A st rest (fst (select bE bM (scored [])))
            (snd (select bE bM (scored []))) w = (Inr r, w')"
    using Nil.prems(5,6) by simp
  then show ?case by blast
next
  case (Cons m pre)
  note run = Cons.prems(6)
  note brd = Cons.prems(5)
  have p1: "\<forall>m\<in>set pre. pop L (push L b m) = b" using Cons.prems(1) by simp
  have p2: "\<forall>m\<in>set pre. \<not> is_en_passant L b m" using Cons.prems(2) by simp
  have p4: "\<forall>m\<in>set pre. \<not> forced_king (san L b m)" using Cons.prems(4) by simp
  have here: "pop L (push L (board w) m) = b" using Cons.prems(1) brd by simp
  have nep: "\<not> is_en_passant L (board w) m" using Cons.prems(2) brd by simp
  have nbook: "\<not> opening_snapshot (board_fen L (board w))" using Cons.prems(3) brd by simp
  have nking: "\<not> forced_king (san L (board w) m)" using Cons.prems(4) brd by simp
  show ?case
  proof (cases rule: loop_body_cases[where L=L and w=w and m=m and an=an and A=A and st=st
      and bE=bE and bM=bM])
    case ep
    with nep show ?thesis by simp
  next
    case (book s)
    with nbook show ?thesis by simp
  next
    case king
    with nking show ?thesis by simp
  next
    case empty
    with run show ?thesis by simp
  next
    case skip
    with run have nxt: "anarchy_loop L an A st (pre @ rest) bE bM w = (Inr r, w')" by simp
    from Cons.IH[OF p1 p2 Cons.prems(3) p4 brd nxt] obtain tr w1 where
      tr: "evals w1 = evals w @ tr" "board w1 = b"
        "map fst (scored tr) = filter (\<lambda>m. \<not> banned (san L b m)) pre"
        "map candidate tr = map fst (scored tr)"
        "anarchy_loop L an A st rest (fst (select bE bM (scored tr)))
                (snd (select bE bM (scored tr))) w1 = (Inr r, w')" by blast
    have "map fst (scored tr) = filter (\<lambda>m. \<not> banned (san L b m)) (m # pre)"
      using tr(3) skip(3) brd by simp
    with tr show ?thesis by blast
  next
    case (fail e eng)
    with run show ?thesis by simp
  next
    case (score ev eng)
    let ?w1 = "w\<lparr>board := pop L (push L (board w) m), engine := eng,
                 evals := evals w @ [(m, st, Inr ev)]\<rparr>"
    let ?c = "case bE of None \<Rightarrow> True | Some best \<Rightarrow> best > ev"
    let ?bE = "if ?c then Some ev else bE"
    let ?bM = "if ?c then Some m else bM"
    from score(6) run have nxt: "anarchy_loop L an A st (pre @ rest) ?bE ?bM ?w1 = (Inr r, w')"
      by simp
    have b1: "board ?w1 = b" using here by simp
    from Cons.IH[OF p1 p2 Cons.prems(3) p4 b1 nxt] obtain tr w1 where
      tr: "evals w1 = evals ?w1 @ tr" "board w1 = b"
        "map fst (scored tr) = filter (\<lambda>m. \<not> banned (san L b m)) pre"
        "map candidate tr = map fst (scored tr)"
        "anarchy_loop L an A st rest (fst (select ?bE ?bM (scored tr)))
                (snd (select ?bE ?bM (scored tr))) w1 = (Inr r, w')" by blast
    let ?tr = "(m, st, Inr ev) # tr"
    have e: "evals w1 = evals w @ ?tr" using tr(1) by simp
    have f: "map fst (scored ?tr) = filter (\<lambda>m. \<not> banned (san L b m)) (m # pre)"
      using tr(3) score(4) brd by simp
    have c: "map candidate ?tr = map fst (scored ?tr)"
      using tr(4) by (simp add: candidate_def)
    have s: "select bE bM (scored ?tr) = select ?bE ?bM (scored tr)"
      by simp
    have "anarchy_loop L an A st rest (fst (select bE bM (scored ?tr)))
                (snd (select bE bM (scored ?tr))) w1 = (Inr r, w')"
      unfolding s using tr(5) .
    with e tr(2) f c show ?thesis by blast
  qed
qed

section \<open>More runs on the tabulated positions\<close>

lemma run_ep_endgame:
  "Anarchy_search table_chess (mock_analyse []) real_arith (start_world pos_ep_endgame) (Millis 60000)
     = (Inr (Move \<lparr>uci_str = ''e5d6'', san_str = ''exd6'', ep = True\<rparr>),
        \<lparr>board = pos_ep_endgame, engine = 4,
         evals = [(mv ''h1h2'' ''Kh2'', 1 / 10, Inr 0), (mv ''h1g2'' ''Kg2'', 1 / 10, Inr 0),
                  (mv ''h1g1'' ''Kg1'', 1 / 10, Inr 0), (mv ''e5e6'' ''e6'', 1 / 10, Inr 0)]\<rparr>)"
  by (simp add: run_defs table_defs pos_ep_endgame_def)

lemma run_e4_a6_e5_d5:
  "Anarchy_search table_chess (mock_analyse []) real_arith (start_world pos_e4_a6_e5_d5) (Millis 60000)
     = (Inr (Move (mv ''e1e2'' ''Ke2'')),
        \<lparr>board = pos_e4_a6_e5_d5, engine = 8,
         evals = [(mv ''g1h3'' ''Nh3'', 1 / 10, Inr 0), (mv ''g1f3'' ''Nf3'', 1 / 10, Inr 0),
                  (mv ''g1e2'' ''Ne2'', 1 / 10, Inr 0), (mv ''f1a6'' ''Bxa6'', 1 / 10, Inr 0),
                  (mv ''f1b5'' ''Bb5+'', 1 / 10, Inr 0), (mv ''f1c4'' ''Bc4'', 1 / 10, Inr 0),
                  (mv ''f1d3'' ''Bd3'', 1 / 10, Inr 0), (mv ''f1e2'' ''Be2'', 1 / 10, Inr 0)]\<rparr>)"
  by (simp add: run_defs table_defs pos_e4_a6_e5_d5_def)

lemma table_contract: "pop table_chess (push table_chess b m) = b"
  by (simp add: table_chess_def)

section \<open>What the strategies return\<close>

lemma RandomMove_search_legal:
  assumes "legal_moves L b \<noteq> []"
  shows "\<exists>m\<in>set (legal_moves L b). RandomMove_search L r b = Inr (Move m)"
proof -
  have "r mod length (legal_moves L b) < length (legal_moves L b)" using assms by simp
  then have "legal_moves L b ! (r mod length (legal_moves L b)) \<in> set (legal_moves L b)"
    by (rule nth_mem)
  then show ?thesis using assms by (simp add: RandomMove_search_def choice_def)
qed

lemma first_item_sort_key:
  assumes "xs \<noteq> []"
  shows "\<exists>m\<in>set xs. first_item (sort_key f xs) = Inr m"
proof -
  have "sort_key f xs \<noteq> []" using assms by (metis length_sort list.size(3) length_0_conv)
  then obtain y ys where ys: "sort_key f xs = y # ys" by (cases "sort_key f xs") auto
  then have "y \<in> set (sort_key f xs)" by simp
  then have "y \<in> set xs" by simp
  with ys show ?thesis by (simp add: first_item_def)
qed

lemma Alphabetical_search_legal:
  assumes "legal_moves L b \<noteq> []"
  shows "\<exists>m\<in>set (legal_moves L b). Alphabetical_search L b = Inr (Move m)"
  using first_item_sort_key[OF assms, of "san L b"] by (auto simp: Alphabetical_search_def)

lemma FirstMove_search_legal:
  assumes "legal_moves L b \<noteq> []"
  shows "\<exists>m\<in>set (legal_moves L b). FirstMove_search L b = Inr (Move m)"
  using first_item_sort_key[OF assms, of "uci L"] by (auto simp: FirstMove_search_def)

lemma anarchy_loop_value:
  assumes "anarchy_loop L an A st ms bE bM w = (Inr r, w')"
  shows "r = returned bM \<or> (\<exists>s. r = Str s) \<or> (\<exists>m\<in>set ms. r = Move m)"
  using assms
proof (induction ms arbitrary: bE bM w)
  case Nil
  then show ?case by (simp add: returned_def)
next
  case (Cons m ms)
  note run = Cons.prems
  have later: "r = returned bM \<or> (\<exists>s. r = Str s) \<or> (\<exists>x\<in>set (m # ms). r = Move x)"
    if "anarchy_loop L an A st ms bE1 bM1 w1 = (Inr r, w')" "bM1 = bM \<or> bM1 = Some m"
    for bE1 bM1 w1
  proof -
    from Cons.IH[OF that(1)] have "r = returned bM1 \<or> (\<exists>s. r = Str s) \<or> (\<exists>m\<in>set ms. r = Move m)" .
    with that(2) show ?thesis by (auto simp: returned_def)
  qed
  show ?case
  proof (cases rule: loop_body_cases[where L=L and w=w and m=m and an=an and A=A and st=st
      and bE=bE and bM=bM])
    case ep
    with run show ?thesis by simp
  next
    case (book s)
    with run have "r = Str s" by simp
    then show ?thesis by blast
  next
    case king
    with run show ?thesis by simp
  next
    case empty
    with run show ?thesis by simp
  next
    case skip
    with run have "anarchy_loop L an A st ms bE bM w = (Inr r, w')" by simp
    from later[OF this] show ?thesis by simp
  next
    case (fail e eng)
    with run show ?thesis by simp
  next
    case (score ev eng)
    let ?w1 = "w\<lparr>board := pop L (push L (board w) m), engine := eng,
                 evals := evals w @ [(m, st, Inr ev)]\<rparr>"
    let ?c = "case bE of None \<Rightarrow> True | Some best \<Rightarrow> best > ev"
    from score(6) run have
      nxt: "anarchy_loop L an A st ms (if ?c then Some ev else bE) (if ?c then Some m else bM) ?w1
              = (Inr r, w')" by simp
    have "(if ?c then Some m else bM) = bM \<or> (if ?c then Some m else bM) = Some m" by simp
    from later[OF nxt this] show ?thesis .
  qed
qed

lemma Anarchy_search_value:
  assumes "Anarchy_search L an A w timeLeft = (Inr r, w')"
  shows "r = NoneV \<or> (\<exists>s. r = Str s) \<or> (\<exists>m\<in>set (legal_moves L (board w)). r = Move m)"
proof (cases "search_time A timeLeft (length (legal_moves L (board w)))")
  case (Inl e)
  with assms show ?thesis by (simp add: Anarchy_search_def)
next
  case (Inr st)
  with assms have "anarchy_loop L an A st (legal_moves L (board w)) None None w = (Inr r, w')"
    by (simp add: Anarchy_search_def)
  from anarchy_loop_value[OF this] show ?thesis by (simp add: returned_def)
qed

section \<open>The banned pattern\<close>

lemma banned_not_forced_king: "banned s \<Longrightarrow> \<not> forced_king s"
  by (auto simp: banned_def forced_king_def py_first_def)

lemma anarchy_loop_never_banned:
  assumes "\<forall>x\<in>set ms. pop L (push L b x) = b"
    and "board w = b"
    and "banned (san L b m)"
    and "\<not> is_en_passant L b m"
    and "bM \<noteq> Some m"
    and "anarchy_loop L an A st ms bE bM w = (res, w')"
  shows "m \<notin> set (map candidate (new_evals w w')) \<and> res \<noteq> Inr (Move m)"
  using assms
proof (induction ms arbitrary: bE bM w)
  case Nil
  then show ?case by (auto simp: new_evals_def split: option.splits)
next
  case (Cons x ms)
  note run = Cons.prems(6)
  note brd = Cons.prems(2)
  have p1: "\<forall>x\<in>set ms. pop L (push L b x) = b" using Cons.prems(1) by simp
  have here: "pop L (push L (board w) x) = b" using Cons.prems(1) brd by simp
  have diff: "x \<noteq> m" if "\<not> banned (san L (board w) x)" using that Cons.prems(3) brd by auto
  show ?case
  proof (cases rule: loop_body_cases[where L=L and w=w and m=x and an=an and A=A and st=st
      and bE=bE and bM=bM])
    case ep
    with run Cons.prems(4) brd show ?thesis by (auto simp: new_evals_def)
  next
    case (book s)
    with run show ?thesis by (auto simp: new_evals_def)
  next
    case king
    with run banned_not_forced_king[OF Cons.prems(3)] brd show ?thesis
      by (auto simp: new_evals_def)
  next
    case empty
    with run show ?thesis by (auto simp: new_evals_def)
  next
    case skip
    with run have "anarchy_loop L an A st ms bE bM w = (res, w')" by simp
    from Cons.IH[OF p1 brd Cons.prems(3,4,5) this] show ?thesis .
  next
    case (fail e eng)
    with run diff show ?thesis by (auto simp: new_evals_def candidate_def)
  next
    case (score ev eng)
    let ?w1 = "w\<lparr>board := pop L (push L (board w) x), engine := eng,
                 evals := evals w @ [(x, st, Inr ev)]\<rparr>"
    let ?c = "case bE of None \<Rightarrow> True | Some best \<Rightarrow> best > ev"
    from score(6) run have
      nxt: "anarchy_loop L an A st ms (if ?c then Some ev else bE) (if ?c then Some x else bM) ?w1
              = (res, w')" by simp
    have b1: "board ?w1 = b" using here by simp
    have bm: "(if ?c then Some x else bM) \<noteq> Some m" using diff[OF score(4)] Cons.prems(5) by simp
    from Cons.IH[OF p1 b1 Cons.prems(3,4) bm nxt]
    have ih: "m \<notin> set (map candidate (new_evals ?w1 w'))" "res \<noteq> Inr (Move m)" by simp_all
    from anarchy_loop_evals[OF nxt] obtain tr where tr: "evals w' = evals ?w1 @ tr" by blast
    have "new_evals ?w1 w' = tr" using new_evals_append[OF tr] .
    moreover have "new_evals w w' = (x, st, Inr ev) # tr"
      using tr by (simp add: new_evals_def)
    ultimately show ?thesis using ih diff[OF score(4)] by (simp add: candidate_def)
  qed
qed

lemma Anarchy_search_never_banned:
  assumes "\<forall>x\<in>set (legal_moves L (board w)). pop L (push L (board w) x) = board w"
    and "banned (san L (board w) m)"
    and "\<not> is_en_passant L (board w) m"
    and "Anarchy_search L an A w timeLeft = (res, w')"
  shows "m \<notin> set (map candidate (new_evals w w')) \<and> res \<noteq> Inr (Move m)"
proof (cases "search_time A timeLeft (length (legal_moves L (board w)))")
  case (Inl e)
  with assms(4) show ?thesis by (auto simp: Anarchy_search_def new_evals_def)
next
  case (Inr st)
  with assms(4) have "anarchy_loop L an A st (legal_moves L (board w)) None None w = (res, w')"
    by (simp add: Anarchy_search_def)
  from anarchy_loop_never_banned[OF assms(1) refl assms(2,3) _ this] show ?thesis by simp
qed

section \<open>MinimalEngine: the time of the side to move\<close>

text \<open>
  Claim C9. For every position, pair of times, pair of increments and ponder flag,
  \<^verbatim>\<open>search_with_ponder\<close> is exactly \<^verbatim>\<open>search\<close> on the position, on the white time when
  White is to move and on the black time otherwise, and on the ponder flag; whatever
  \<^verbatim>\<open>search\<close> returns or does (its result type is arbitrary) is what
  \<^verbatim>\<open>search_with_ponder\<close> returns or does, and the increments make no difference.
\<close>

theorem search_with_ponder_delegates:
  "search_with_ponder L search b wtime btime winc binc ponder
     = search b (if turn L b then wtime else btime) ponder
   \<and> search_with_ponder L search b wtime btime winc binc ponder
     = search_with_ponder L search b wtime btime winc' binc' ponder"
  by (simp add: search_with_ponder_def)

section \<open>Anarchy: the time budget\<close>

text \<open>
  Claim C3. For a numeric time budget of \<open>t\<close> milliseconds, \<open>T = t / 1000\<close> seconds, and
  \<open>N \<ge> 1\<close> legal moves, the search time that lines 133 to 141 compute is \<open>(T / 10) / N\<close>
  when \<open>N * 0.1 > T / 10\<close> and \<open>0.1\<close> otherwise, and every call of \<^verbatim>\<open>evaluate\<close> that the
  search makes is given exactly this budget. The arithmetic is that of the number type,
  whatever it is, so the statement holds of Python's floating point operations.
\<close>

theorem Anarchy_search_time_budget:
  assumes "legal_moves L (board w) \<noteq> []"
  shows "search_time A (Millis t) (length (legal_moves L (board w)))
           = Inr (shrink_law A (t / lit_1000 A) (length (legal_moves L (board w))))
       \<and> (\<forall>e\<in>set (new_evals w (snd (Anarchy_search L an A w (Millis t)))).
             budget e = shrink_law A (t / lit_1000 A) (length (legal_moves L (board w))))"
proof -
  let ?N = "length (legal_moves L (board w))"
  let ?st = "shrink_law A (t / lit_1000 A) ?N"
  have st: "search_time A (Millis t) ?N = Inr ?st"
    using assms by (simp add: search_time_law)
  obtain res w' where run: "anarchy_loop L an A ?st (legal_moves L (board w)) None None w = (res, w')"
    by (cases "anarchy_loop L an A ?st (legal_moves L (board w)) None None w") auto
  from anarchy_loop_evals[OF run] obtain tr where tr: "evals w' = evals w @ tr"
    "\<forall>e\<in>set tr. budget e = ?st \<and> candidate e \<in> set (legal_moves L (board w))" by blast
  have "snd (Anarchy_search L an A w (Millis t)) = w'"
    using st run by (simp add: Anarchy_search_def)
  then have "new_evals w (snd (Anarchy_search L an A w (Millis t))) = tr"
    using new_evals_append[OF tr(1)] by simp
  with tr(2) st show ?thesis by simp
qed

text \<open>
  With five legal moves and one second left the budget shrinks to a fiftieth of a second;
  with a minute left it stays at a tenth.
\<close>

theorem Anarchy_search_time_budget_witness:
  "search_time real_arith (Millis 1000) 5 = Inr (1 / 50)
   \<and> map budget (new_evals (start_world pos_five)
          (snd (Anarchy_search table_chess (mock_analyse five_scores) real_arith
                 (start_world pos_five) (Millis 1000)))) = replicate 5 (1 / 50)
   \<and> search_time real_arith (Millis 60000) 5 = Inr (1 / 10)
   \<and> map budget (new_evals (start_world pos_five)
          (snd (Anarchy_search table_chess (mock_analyse five_scores) real_arith
                 (start_world pos_five) (Millis 60000)))) = replicate 5 (1 / 10)"
proof -
  have ne: "legal_moves table_chess (board (start_world pos_five)) \<noteq> []"
    by (simp add: table_defs pos_five_def)
  have len: "length (legal_moves table_chess (board (start_world pos_five))) = 5"
    by (simp add: table_defs pos_five_def)
  have short: "shrink_law real_arith (1000 / lit_1000 real_arith) 5 = 1 / 50"
    by (simp add: shrink_law_def real_arith_def)
  have long: "shrink_law real_arith (60000 / lit_1000 real_arith) 5 = 1 / 10"
    by (simp add: shrink_law_def real_arith_def)
  have calls1: "length (new_evals (start_world pos_five)
          (snd (Anarchy_search table_chess (mock_analyse five_scores) real_arith
                 (start_world pos_five) (Millis 1000)))) = 5"
    unfolding run_five_short by (simp add: new_evals_def start_world_def)
  have calls2: "length (new_evals (start_world pos_five)
          (snd (Anarchy_search table_chess (mock_analyse five_scores) real_arith
                 (start_world pos_five) (Millis 60000)))) = 5"
    unfolding run_five by (simp add: new_evals_def start_world_def)
  note law1 = Anarchy_search_time_budget[OF ne, of real_arith 1000 "mock_analyse five_scores",
      unfolded len short]
  note law2 = Anarchy_search_time_budget[OF ne, of real_arith 60000 "mock_analyse five_scores",
      unfolded len long]
  show ?thesis
    using law1 law2 map_eq_replicate[OF conjunct2[OF law1]] map_eq_replicate[OF conjunct2[OF law2]]
    unfolding calls1 calls2 by simp
qed

section \<open>Anarchy: the board after the search\<close>

text \<open>
  Claim C6. Whenever \<^verbatim>\<open>Anarchy.search\<close> returns a value, through a short-circuit rule or
  after scoring the candidates, the board is in the state it was in before the call. The
  library's contract is assumed where the search relies on it: popping after pushing a
  legal move gives the position back. (Each scored candidate is pushed once and popped
  once before the next candidate is looked at; the other candidates are not pushed.)
\<close>

theorem Anarchy_search_restores_board:
  assumes "\<forall>m\<in>set (legal_moves L (board w)). pop L (push L (board w) m) = board w"
    and "Anarchy_search L an A w timeLeft = (Inr r, w')"
  shows "board w' = board w"
proof (cases "search_time A timeLeft (length (legal_moves L (board w)))")
  case (Inl e)
  with assms(2) show ?thesis by (simp add: Anarchy_search_def)
next
  case (Inr st)
  with assms(2) have "anarchy_loop L an A st (legal_moves L (board w)) None None w = (Inr r, w')"
    by (simp add: Anarchy_search_def)
  from anarchy_loop_board[OF assms(1) refl this] show ?thesis .
qed

text \<open>Five candidates are pushed, scored and popped, and the board is the one given.\<close>

theorem Anarchy_search_restores_board_witness:
  "fst (Anarchy_search table_chess (mock_analyse five_scores) real_arith
            (start_world pos_five) (Millis 60000)) = Inr (Move (mv ''h2h3'' ''h3''))
   \<and> length (evals (snd (Anarchy_search table_chess (mock_analyse five_scores) real_arith
            (start_world pos_five) (Millis 60000)))) = 5
   \<and> board (snd (Anarchy_search table_chess (mock_analyse five_scores) real_arith
            (start_world pos_five) (Millis 60000))) = board (start_world pos_five)"
proof -
  have contract: "\<forall>m\<in>set (legal_moves table_chess (board (start_world pos_five))).
      pop table_chess (push table_chess (board (start_world pos_five)) m)
        = board (start_world pos_five)"
    by (simp add: table_chess_def)
  have run: "Anarchy_search table_chess (mock_analyse five_scores) real_arith
            (start_world pos_five) (Millis 60000)
       = (Inr (Move (mv ''h2h3'' ''h3'')),
          snd (Anarchy_search table_chess (mock_analyse five_scores) real_arith
            (start_world pos_five) (Millis 60000)))"
    unfolding run_five by simp
  have res: "fst (Anarchy_search table_chess (mock_analyse five_scores) real_arith
            (start_world pos_five) (Millis 60000)) = Inr (Move (mv ''h2h3'' ''h3''))"
    unfolding run_five by simp
  have len: "length (evals (snd (Anarchy_search table_chess (mock_analyse five_scores) real_arith
            (start_world pos_five) (Millis 60000)))) = 5"
    unfolding run_five by simp
  have brd: "board (snd (Anarchy_search table_chess (mock_analyse five_scores) real_arith
            (start_world pos_five) (Millis 60000))) = board (start_world pos_five)"
    using Anarchy_search_restores_board[OF contract run] .
  show ?thesis using res len brd by (intro conjI)
qed

section \<open>Anarchy: the opening replies\<close>

text \<open>
  Claim C7. When the placement string of the position is that of the initial position,
  \<^verbatim>\<open>Anarchy.search\<close> returns \<^verbatim>\<open>"e2e4"\<close>; when it is that of the position after 1.e4 e5,
  \<^verbatim>\<open>"g1f3"\<close>; when it is that of the position after 1.e4 e5 2.Nf3 Nc6, \<^verbatim>\<open>"f1b5"\<close>. In
  each case the state is untouched: the engine is not called. The test stands inside
  the loop, after the en-passant test of the first candidate, so the statement is for
  positions that have a legal move and whose first legal move is not an en-passant
  capture, as is the case of every chess position with one of these three placements.
\<close>

theorem Anarchy_search_opening_book:
  assumes "legal_moves L (board w) = m # ms"
    and "\<not> is_en_passant L (board w) m"
  shows "(board_fen L (board w) = ''rnbqkbnr/pppppppp/8/8/8/8/PPPPPPPP/RNBQKBNR''
            \<longrightarrow> Anarchy_search L an A w timeLeft = (Inr (Str ''e2e4''), w))
       \<and> (board_fen L (board w) = ''rnbqkbnr/pppp1ppp/8/4p3/4P3/8/PPPP1PPP/RNBQKBNR''
            \<longrightarrow> Anarchy_search L an A w timeLeft = (Inr (Str ''g1f3''), w))
       \<and> (board_fen L (board w) = ''r1bqkbnr/pppp1ppp/2n5/4p3/4P3/5N2/PPPP1PPP/RNBQKB1R''
            \<longrightarrow> Anarchy_search L an A w timeLeft = (Inr (Str ''f1b5''), w))"
proof -
  obtain st where st: "search_time A timeLeft (length (legal_moves L (board w))) = Inr st"
    using search_time_returns[of "length (legal_moves L (board w))" A timeLeft] assms(1) by auto
  have run: "Anarchy_search L an A w timeLeft
      = (case loop_body L an A st m None None w of
           Done res w' \<Rightarrow> (res, w')
         | Next bE bM w' \<Rightarrow> anarchy_loop L an A st ms bE bM w')"
    using st assms(1) by (simp add: Anarchy_search_def)
  show ?thesis
    unfolding run using assms(2) by (simp add: loop_body_def)
qed

text \<open>The three openings, White to move, with the legal moves of each position.\<close>

theorem Anarchy_search_opening_book_witness:
  "board_fen table_chess (board (start_world pos_initial))
       = ''rnbqkbnr/pppppppp/8/8/8/8/PPPPPPPP/RNBQKBNR''
   \<and> Anarchy_search table_chess (mock_analyse []) real_arith (start_world pos_initial) Limit
       = (Inr (Str ''e2e4''), start_world pos_initial)
   \<and> board_fen table_chess (board (start_world pos_e4_e5))
       = ''rnbqkbnr/pppp1ppp/8/4p3/4P3/8/PPPP1PPP/RNBQKBNR''
   \<and> Anarchy_search table_chess (mock_analyse []) real_arith (start_world pos_e4_e5) (Millis 59000)
       = (Inr (Str ''g1f3''), start_world pos_e4_e5)
   \<and> board_fen table_chess (board (start_world pos_e4_e5_Nf3_Nc6))
       = ''r1bqkbnr/pppp1ppp/2n5/4p3/4P3/5N2/PPPP1PPP/RNBQKB1R''
   \<and> Anarchy_search table_chess (mock_analyse []) real_arith (start_world pos_e4_e5_Nf3_Nc6)
         (Millis 58000)
       = (Inr (Str ''f1b5''), start_world pos_e4_e5_Nf3_Nc6)"
proof -
  have a1: "legal_moves table_chess (board (start_world pos_initial))
      = hd (moves pos_initial) # tl (moves pos_initial)"
    by (simp add: table_defs pos_initial_def)
  have a2: "\<not> is_en_passant table_chess (board (start_world pos_initial)) (hd (moves pos_initial))"
    by (simp add: table_defs pos_initial_def)
  have a3: "board_fen table_chess (board (start_world pos_initial))
       = ''rnbqkbnr/pppppppp/8/8/8/8/PPPPPPPP/RNBQKBNR''"
    by (simp add: table_defs pos_initial_def)
  have b1: "legal_moves table_chess (board (start_world pos_e4_e5))
      = hd (moves pos_e4_e5) # tl (moves pos_e4_e5)"
    by (simp add: table_defs pos_e4_e5_def)
  have b2: "\<not> is_en_passant table_chess (board (start_world pos_e4_e5)) (hd (moves pos_e4_e5))"
    by (simp add: table_defs pos_e4_e5_def)
  have b3: "board_fen table_chess (board (start_world pos_e4_e5))
       = ''rnbqkbnr/pppp1ppp/8/4p3/4P3/8/PPPP1PPP/RNBQKBNR''"
    by (simp add: table_defs pos_e4_e5_def)
  have c1: "legal_moves table_chess (board (start_world pos_e4_e5_Nf3_Nc6))
      = hd (moves pos_e4_e5_Nf3_Nc6) # tl (moves pos_e4_e5_Nf3_Nc6)"
    by (simp add: table_defs pos_e4_e5_Nf3_Nc6_def)
  have c2: "\<not> is_en_passant table_chess (board (start_world pos_e4_e5_Nf3_Nc6))
      (hd (moves pos_e4_e5_Nf3_Nc6))"
    by (simp add: table_defs pos_e4_e5_Nf3_Nc6_def)
  have c3: "board_fen table_chess (board (start_world pos_e4_e5_Nf3_Nc6))
       = ''r1bqkbnr/pppp1ppp/2n5/4p3/4P3/5N2/PPPP1PPP/RNBQKB1R''"
    by (simp add: table_defs pos_e4_e5_Nf3_Nc6_def)
  show ?thesis
    using a3 b3 c3
      Anarchy_search_opening_book[OF a1 a2, of "mock_analyse []" real_arith Limit]
      Anarchy_search_opening_book[OF b1 b2, of "mock_analyse []" real_arith "Millis 59000"]
      Anarchy_search_opening_book[OF c1 c2, of "mock_analyse []" real_arith "Millis 58000"]
    by simp
qed

section \<open>Anarchy: when every candidate is banned\<close>

text \<open>
  Claim C10. In a position with a legal move, where no candidate is an en-passant
  capture, the placement is none of the three opening snapshots, and the notation of
  every legal move begins with \<^verbatim>\<open>R\<close> and ends with \<^verbatim>\<open>a4\<close>, \<^verbatim>\<open>Anarchy.search\<close> returns
  \<^verbatim>\<open>None\<close>, and calls the engine for no candidate. (A notation that matches the banned
  pattern is none of the four king moves, so that rule cannot fire.)
\<close>

theorem Anarchy_search_all_banned:
  assumes "legal_moves L (board w) \<noteq> []"
    and "\<forall>m\<in>set (legal_moves L (board w)). \<not> is_en_passant L (board w) m"
    and "\<not> opening_snapshot (board_fen L (board w))"
    and "\<forall>m\<in>set (legal_moves L (board w)). banned (san L (board w) m)"
  shows "Anarchy_search L an A w timeLeft = (Inr NoneV, w)"
proof -
  from assms(1) obtain st where st:
    "search_time A timeLeft (length (legal_moves L (board w))) = Inr st"
    using search_time_returns[of "length (legal_moves L (board w))" A timeLeft] by auto
  have "anarchy_loop L an A st (legal_moves L (board w)) None None w = (Inr (returned None), w)"
    using anarchy_loop_all_banned[OF assms(2,3,4)] .
  with st show ?thesis by (simp add: Anarchy_search_def returned_def)
qed

text \<open>The position whose only legal move is the rook's to a4.\<close>

theorem Anarchy_search_all_banned_witness:
  "legal_moves table_chess (board (start_world pos_Ra4_only)) \<noteq> []
   \<and> Anarchy_search table_chess (mock_analyse []) real_arith (start_world pos_Ra4_only) (Millis 60000)
       = (Inr NoneV, start_world pos_Ra4_only)"
proof -
  have 1: "legal_moves table_chess (board (start_world pos_Ra4_only)) \<noteq> []"
    by (simp add: table_chess_def start_world_def pos_Ra4_only_def)
  have 2: "\<forall>m\<in>set (legal_moves table_chess (board (start_world pos_Ra4_only))).
             \<not> is_en_passant table_chess (board (start_world pos_Ra4_only)) m"
    by (simp add: table_chess_def start_world_def pos_Ra4_only_def mv_def)
  have 3: "\<not> opening_snapshot (board_fen table_chess (board (start_world pos_Ra4_only)))"
    by (simp add: table_chess_def start_world_def pos_Ra4_only_def opening_snapshot_def)
  have 4: "\<forall>m\<in>set (legal_moves table_chess (board (start_world pos_Ra4_only))).
             banned (san table_chess (board (start_world pos_Ra4_only)) m)"
    by (simp add: table_chess_def start_world_def pos_Ra4_only_def mv_def banned_def
        py_first_def py_last2_def)
  show ?thesis using 1 Anarchy_search_all_banned[OF 1 2 3 4] by simp
qed

section \<open>Anarchy: the scored fallback\<close>

text \<open>
  Claim C5. When no short-circuit rule fires (no candidate is an en-passant capture, the
  placement is no opening snapshot, no candidate has one of the four king notations) and
  the search returns, the candidates that were scored are, in enumeration order, the
  legal moves whose notation does not match the banned pattern, each call of \<^verbatim>\<open>evaluate\<close>
  came back with a score, and the move returned is the earliest scored candidate whose
  score is lowest: every candidate scored before it has a strictly higher score, every
  candidate scored after it a score at least as high. (The score is relative to the side
  to move after the push, the opponent, and the comparison \<^verbatim>\<open>bestEvaluation > evaluation\<close>
  takes a new candidate only when its score is strictly lower.) When nothing was scored
  the result is \<^verbatim>\<open>None\<close>. The library's contract on push and pop is assumed, and a
  linear order on the scores.
\<close>

theorem Anarchy_search_scored_fallback:
  assumes "\<forall>m\<in>set (legal_moves L (board w)). pop L (push L (board w) m) = board w"
    and "\<forall>m\<in>set (legal_moves L (board w)). \<not> is_en_passant L (board w) m"
    and "\<not> opening_snapshot (board_fen L (board w))"
    and "\<forall>m\<in>set (legal_moves L (board w)). \<not> forced_king (san L (board w) m)"
    and "Anarchy_search L an A w timeLeft = (Inr r, w')"
  shows "map candidate (new_evals w w') = map fst (scored (new_evals w w'))
       \<and> map fst (scored (new_evals w w'))
           = filter (\<lambda>m. \<not> banned (san L (board w) m)) (legal_moves L (board w))
       \<and> (scored (new_evals w w') = [] \<longrightarrow> r = NoneV)
       \<and> (scored (new_evals w w') \<noteq> [] \<longrightarrow>
            (\<exists>pre m s post. scored (new_evals w w') = pre @ (m, s) # post \<and> r = Move m
                \<and> (\<forall>x\<in>set pre. s < snd x) \<and> (\<forall>x\<in>set post. s \<le> snd x)))"
proof (cases "search_time A timeLeft (length (legal_moves L (board w)))")
  case (Inl e)
  with assms(5) show ?thesis by (simp add: Anarchy_search_def)
next
  case (Inr st)
  with assms(5) have
    "anarchy_loop L an A st (legal_moves L (board w) @ []) None None w = (Inr r, w')"
    by (simp add: Anarchy_search_def)
  from anarchy_loop_prefix[OF assms(1,2,3,4) refl this] obtain tr w1 where
    tr: "evals w1 = evals w @ tr"
      "map fst (scored tr) = filter (\<lambda>m. \<not> banned (san L (board w) m)) (legal_moves L (board w))"
      "map candidate tr = map fst (scored tr)"
      "anarchy_loop L an A st [] (fst (select None None (scored tr)))
         (snd (select None None (scored tr))) w1 = (Inr r, w')" by blast
  from tr(4) have w': "w' = w1" and r: "r = returned (snd (select None None (scored tr)))"
    by (simp_all add: returned_def)
  have ne: "new_evals w w' = tr" using new_evals_append[OF tr(1)] w' by simp
  have none: "r = NoneV" if "scored tr = []" using that r by (simp add: returned_def)
  have some: "\<exists>pre m s post. scored tr = pre @ (m, s) # post \<and> r = Move m
                \<and> (\<forall>x\<in>set pre. s < snd x) \<and> (\<forall>x\<in>set post. s \<le> snd x)"
    if "scored tr \<noteq> []"
  proof -
    from select_first_best[OF that] obtain pre m s post where
      d: "scored tr = pre @ (m, s) # post" "snd (select None None (scored tr)) = Some m"
        "\<forall>x\<in>set pre. s < snd x" "\<forall>x\<in>set post. s \<le> snd x" by blast
    have "r = Move m" using r d(2) by (simp add: returned_def)
    with d show ?thesis by blast
  qed
  show ?thesis unfolding ne using tr(2,3) none some by blast
qed

text \<open>
  Five candidates with the scores 30, 10, 10, 25, 40: the second is returned, not the
  third.
\<close>

theorem Anarchy_search_scored_fallback_witness:
  "fst (Anarchy_search table_chess (mock_analyse five_scores) real_arith
            (start_world pos_five) (Millis 60000)) = Inr (Move (mv ''h2h3'' ''h3''))
   \<and> scored (new_evals (start_world pos_five)
        (snd (Anarchy_search table_chess (mock_analyse five_scores) real_arith
            (start_world pos_five) (Millis 60000))))
       = [(mv ''h1g1'' ''Kg1'', 30), (mv ''h2h3'' ''h3'', 10), (mv ''g2g3'' ''g3'', 10),
          (mv ''h2h4'' ''h4'', 25), (mv ''g2g4'' ''g4'', 40)]
   \<and> map fst (scored (new_evals (start_world pos_five)
        (snd (Anarchy_search table_chess (mock_analyse five_scores) real_arith
            (start_world pos_five) (Millis 60000)))))
       = filter (\<lambda>m. \<not> banned (san table_chess (board (start_world pos_five)) m))
           (legal_moves table_chess (board (start_world pos_five)))"
proof -
  let ?w = "start_world pos_five"
  let ?run = "Anarchy_search table_chess (mock_analyse five_scores) real_arith ?w (Millis 60000)"
  have contract: "\<forall>m\<in>set (legal_moves table_chess (board ?w)).
      pop table_chess (push table_chess (board ?w) m) = board ?w"
    by (simp add: table_contract)
  have no_ep: "\<forall>m\<in>set (legal_moves table_chess (board ?w)). \<not> is_en_passant table_chess (board ?w) m"
    by (simp add: table_defs pos_five_def)
  have no_book: "\<not> opening_snapshot (board_fen table_chess (board ?w))"
    by (simp add: table_defs pos_five_def opening_snapshot_def)
  have no_king: "\<forall>m\<in>set (legal_moves table_chess (board ?w)).
      \<not> forced_king (san table_chess (board ?w) m)"
    by (simp add: table_defs pos_five_def forced_king_def)
  have run: "?run = (Inr (Move (mv ''h2h3'' ''h3'')), snd ?run)"
    unfolding run_five by simp
  have res: "fst ?run = Inr (Move (mv ''h2h3'' ''h3''))"
    unfolding run_five by simp
  have sc: "scored (new_evals ?w (snd ?run))
       = [(mv ''h1g1'' ''Kg1'', 30), (mv ''h2h3'' ''h3'', 10), (mv ''g2g3'' ''g3'', 10),
          (mv ''h2h4'' ''h4'', 25), (mv ''g2g4'' ''g4'', 40)]"
    unfolding run_five by (simp add: new_evals_def start_world_def)
  note inst = Anarchy_search_scored_fallback[OF contract no_ep no_book no_king run]
  show ?thesis using res sc conjunct1[OF conjunct2[OF inst]] by (intro conjI)
qed

section \<open>Anarchy: en passant\<close>

text \<open>
  Claim C2, as the code has it. The en-passant test stands inside the loop, so the
  candidates enumerated before the capture are dealt with first. In the position after
  1.e4 a6 2.e5 d5 exactly one legal move is an en-passant capture, and the search returns
  the king move to e2 after eight calls of \<^verbatim>\<open>evaluate\<close>. In the endgame position exactly
  one legal move is an en-passant capture, and the search returns it after four calls.
\<close>

theorem Anarchy_search_en_passant_counterexample:
  "filter (is_en_passant table_chess (board (start_world pos_e4_a6_e5_d5)))
       (legal_moves table_chess (board (start_world pos_e4_a6_e5_d5)))
     = [\<lparr>uci_str = ''e5d6'', san_str = ''exd6'', ep = True\<rparr>]
   \<and> fst (Anarchy_search table_chess (mock_analyse []) real_arith (start_world pos_e4_a6_e5_d5)
          (Millis 60000)) = Inr (Move (mv ''e1e2'' ''Ke2''))
   \<and> fst (Anarchy_search table_chess (mock_analyse []) real_arith (start_world pos_e4_a6_e5_d5)
          (Millis 60000)) \<noteq> Inr (Move \<lparr>uci_str = ''e5d6'', san_str = ''exd6'', ep = True\<rparr>)
   \<and> length (new_evals (start_world pos_e4_a6_e5_d5)
         (snd (Anarchy_search table_chess (mock_analyse []) real_arith (start_world pos_e4_a6_e5_d5)
          (Millis 60000)))) = 8
   \<and> filter (is_en_passant table_chess (board (start_world pos_ep_endgame)))
       (legal_moves table_chess (board (start_world pos_ep_endgame)))
     = [\<lparr>uci_str = ''e5d6'', san_str = ''exd6'', ep = True\<rparr>]
   \<and> fst (Anarchy_search table_chess (mock_analyse []) real_arith (start_world pos_ep_endgame)
          (Millis 60000)) = Inr (Move \<lparr>uci_str = ''e5d6'', san_str = ''exd6'', ep = True\<rparr>)
   \<and> length (new_evals (start_world pos_ep_endgame)
         (snd (Anarchy_search table_chess (mock_analyse []) real_arith (start_world pos_ep_endgame)
          (Millis 60000)))) = 4"
proof -
  have 1: "filter (is_en_passant table_chess (board (start_world pos_e4_a6_e5_d5)))
       (legal_moves table_chess (board (start_world pos_e4_a6_e5_d5)))
     = [\<lparr>uci_str = ''e5d6'', san_str = ''exd6'', ep = True\<rparr>]"
    by (simp add: table_defs pos_e4_a6_e5_d5_def)
  have 2: "filter (is_en_passant table_chess (board (start_world pos_ep_endgame)))
       (legal_moves table_chess (board (start_world pos_ep_endgame)))
     = [\<lparr>uci_str = ''e5d6'', san_str = ''exd6'', ep = True\<rparr>]"
    by (simp add: table_defs pos_ep_endgame_def)
  show ?thesis
    unfolding run_e4_a6_e5_d5 run_ep_endgame 1 2
    by (simp add: new_evals_def start_world_def mv_def)
qed

text \<open>
  Amended claim C2. Let \<open>e\<close> be the first en-passant capture among the legal moves, let
  the placement be no opening snapshot, and let no candidate enumerated before \<open>e\<close> have
  one of the four king notations. Then a search that returns returns \<open>e\<close>, with the board
  as it was; the candidates that were scored are exactly the candidates enumerated
  before \<open>e\<close> whose notation does not match the banned pattern, so that no candidate after
  \<open>e\<close> is scored, and the engine is not called at all when there is no such candidate
  before \<open>e\<close>.
\<close>

theorem Anarchy_search_en_passant:
  assumes "legal_moves L (board w) = pre @ e # post"
    and "is_en_passant L (board w) e"
    and "\<forall>m\<in>set pre. \<not> is_en_passant L (board w) m"
    and "\<not> opening_snapshot (board_fen L (board w))"
    and "\<forall>m\<in>set pre. \<not> forced_king (san L (board w) m)"
    and "\<forall>m\<in>set pre. pop L (push L (board w) m) = board w"
    and "Anarchy_search L an A w timeLeft = (Inr r, w')"
  shows "r = Move e
       \<and> map candidate (new_evals w w') = filter (\<lambda>m. \<not> banned (san L (board w) m)) pre
       \<and> board w' = board w"
proof (cases "search_time A timeLeft (length (legal_moves L (board w)))")
  case (Inl x)
  with assms(7) show ?thesis by (simp add: Anarchy_search_def)
next
  case (Inr st)
  with assms(7,1) have
    "anarchy_loop L an A st (pre @ e # post) None None w = (Inr r, w')"
    by (simp add: Anarchy_search_def)
  from anarchy_loop_prefix[OF assms(6,3,4,5) refl this] obtain tr w1 where
    tr: "evals w1 = evals w @ tr" "board w1 = board w"
      "map fst (scored tr) = filter (\<lambda>m. \<not> banned (san L (board w) m)) pre"
      "map candidate tr = map fst (scored tr)"
      "anarchy_loop L an A st (e # post) (fst (select None None (scored tr)))
         (snd (select None None (scored tr))) w1 = (Inr r, w')" by blast
  have "is_en_passant L (board w1) e" using assms(2) tr(2) by simp
  from loop_body_en_passant[OF this] tr(5) have w': "w' = w1" and r: "r = Move e"
    by simp_all
  have "new_evals w w' = tr" using new_evals_append[OF tr(1)] w' by simp
  with r tr(2,3,4) w' show ?thesis by simp
qed

text \<open>The endgame position: king moves and a pawn move are scored, the capture is returned.\<close>

theorem Anarchy_search_en_passant_witness:
  "fst (Anarchy_search table_chess (mock_analyse []) real_arith (start_world pos_ep_endgame)
          (Millis 60000)) = Inr (Move \<lparr>uci_str = ''e5d6'', san_str = ''exd6'', ep = True\<rparr>)
   \<and> map candidate (new_evals (start_world pos_ep_endgame)
         (snd (Anarchy_search table_chess (mock_analyse []) real_arith (start_world pos_ep_endgame)
          (Millis 60000))))
       = [mv ''h1h2'' ''Kh2'', mv ''h1g2'' ''Kg2'', mv ''h1g1'' ''Kg1'', mv ''e5e6'' ''e6'']"
proof -
  let ?w = "start_world pos_ep_endgame"
  let ?run = "Anarchy_search table_chess (mock_analyse []) real_arith ?w (Millis 60000)"
  let ?pre = "[mv ''h1h2'' ''Kh2'', mv ''h1g2'' ''Kg2'', mv ''h1g1'' ''Kg1'', mv ''e5e6'' ''e6'']"
  let ?e = "\<lparr>uci_str = ''e5d6'', san_str = ''exd6'', ep = True\<rparr>"
  have split: "legal_moves table_chess (board ?w) = ?pre @ ?e # []"
    by (simp add: table_defs pos_ep_endgame_def)
  have is_ep: "is_en_passant table_chess (board ?w) ?e"
    by (simp add: table_defs)
  have no_ep: "\<forall>m\<in>set ?pre. \<not> is_en_passant table_chess (board ?w) m"
    by (simp add: table_defs)
  have no_book: "\<not> opening_snapshot (board_fen table_chess (board ?w))"
    by (simp add: table_defs pos_ep_endgame_def opening_snapshot_def)
  have no_king: "\<forall>m\<in>set ?pre. \<not> forced_king (san table_chess (board ?w) m)"
    by (simp add: table_defs forced_king_def)
  have contract: "\<forall>m\<in>set ?pre. pop table_chess (push table_chess (board ?w) m) = board ?w"
    by (simp add: table_contract)
  have run: "?run = (Inr (Move ?e), snd ?run)"
    unfolding run_ep_endgame by simp
  have unbanned: "filter (\<lambda>m. \<not> banned (san table_chess (board ?w) m)) ?pre = ?pre"
    by (simp add: table_defs banned_def py_first_def py_last2_def)
  note inst = Anarchy_search_en_passant[OF split is_ep no_ep no_book no_king contract run]
  have res: "fst ?run = Inr (Move ?e)" unfolding run_ep_endgame by simp
  show ?thesis using res conjunct1[OF conjunct2[OF inst]] unfolding unbanned by (intro conjI)
qed

section \<open>The strategies and the legal moves\<close>

text \<open>
  Claim C1, at a position the search can be given. \<open>RandomMove\<close>, \<open>Alphabetical\<close> and
  \<open>FirstMove\<close> return a legal move whenever there is one (\<open>RandomMove_search_legal\<close>,
  \<open>Alphabetical_search_legal\<close>, \<open>FirstMove_search_legal\<close>), and a value that \<open>Anarchy\<close>
  returns is \<^verbatim>\<open>None\<close>, a string or a legal move (\<open>Anarchy_search_value\<close>). The opening
  replies are the strings: the test compares the placement only, not the side to move.
  After 1.e3 e5 2.e4 the placement is that of 1.e4 e5 and Black is to move; the search
  returns \<^verbatim>\<open>"g1f3"\<close>, which is the coordinate notation of none of Black's 29 legal moves.
\<close>

theorem Anarchy_search_opening_reply_illegal:
  "legal_moves table_chess (board (start_world pos_e3_e5_e4)) \<noteq> []
   \<and> \<not> turn table_chess (board (start_world pos_e3_e5_e4))
   \<and> Anarchy_search table_chess (mock_analyse []) real_arith (start_world pos_e3_e5_e4)
        (Millis 60000) = (Inr (Str ''g1f3''), start_world pos_e3_e5_e4)
   \<and> ''g1f3'' \<notin> set (map (uci table_chess)
          (legal_moves table_chess (board (start_world pos_e3_e5_e4))))"
  by (simp add: run_defs table_defs pos_e3_e5_e4_def)

section \<open>Anarchy: the rook's move to a4\<close>

text \<open>
  Claim C4, at two positions. A candidate whose notation begins with \<^verbatim>\<open>R\<close> and ends
  with \<^verbatim>\<open>a4\<close> is neither scored nor returned, and the loop goes on after it
  (\<open>Anarchy_search_never_banned\<close>, \<open>anarchy_loop_prefix\<close>). The notation of a
  rook's move to a4 that gives check or mate ends with the sign \<^verbatim>\<open>+\<close> or \<^verbatim>\<open>#\<close>, and
  the test on the last two characters lets it through. Where the rook's move to a4 with
  check is the only legal move, it is scored and returned; where it mates, it is scored
  with the other nineteen candidates and returned as the best.
\<close>

theorem Anarchy_search_plays_Ra4_with_check:
  "legal_moves table_chess (board (start_world pos_Ra4_check)) = [mv ''d4a4'' ''Ra4+'']
   \<and> Anarchy_search table_chess (mock_analyse []) real_arith (start_world pos_Ra4_check)
        (Millis 60000)
       = (Inr (Move (mv ''d4a4'' ''Ra4+'')),
          \<lparr>board = pos_Ra4_check, engine = 1,
           evals = [(mv ''d4a4'' ''Ra4+'', 1 / 10, Inr 0)]\<rparr>)
   \<and> fst (Anarchy_search table_chess (mock_analyse mate_scores) real_arith
          (start_world pos_Ra4_mate) (Millis 60000)) = Inr (Move (mv ''h4a4'' ''Ra4#''))
   \<and> map candidate (new_evals (start_world pos_Ra4_mate)
        (snd (Anarchy_search table_chess (mock_analyse mate_scores) real_arith
          (start_world pos_Ra4_mate) (Millis 60000))))
       = legal_moves table_chess (board (start_world pos_Ra4_mate))"
proof -
  have 1: "legal_moves table_chess (board (start_world pos_Ra4_check)) = [mv ''d4a4'' ''Ra4+'']"
    by (simp add: table_defs pos_Ra4_check_def)
  have 2: "Anarchy_search table_chess (mock_analyse []) real_arith (start_world pos_Ra4_check)
        (Millis 60000)
       = (Inr (Move (mv ''d4a4'' ''Ra4+'')),
          \<lparr>board = pos_Ra4_check, engine = 1,
           evals = [(mv ''d4a4'' ''Ra4+'', 1 / 10, Inr 0)]\<rparr>)"
    by (simp add: run_defs table_defs pos_Ra4_check_def)
  have 3: "fst (Anarchy_search table_chess (mock_analyse mate_scores) real_arith
          (start_world pos_Ra4_mate) (Millis 60000)) = Inr (Move (mv ''h4a4'' ''Ra4#''))
   \<and> map candidate (new_evals (start_world pos_Ra4_mate)
        (snd (Anarchy_search table_chess (mock_analyse mate_scores) real_arith
          (start_world pos_Ra4_mate) (Millis 60000))))
       = legal_moves table_chess (board (start_world pos_Ra4_mate))"
    by (simp add: run_defs table_defs pos_Ra4_mate_def mate_scores_def new_evals_def
        candidate_def)
  show ?thesis using 1 2 3 by (intro conjI) simp_all
qed

section \<open>FillerEngine: attribute access\<close>

text \<open>
  Claim C8, as the code has it. Python calls \<^verbatim>\<open>__getattr__\<close> only for a name that the
  ordinary lookup does not find, and \<^verbatim>\<open>__init__\<close> stores \<^verbatim>\<open>id\<close>, \<^verbatim>\<open>name\<close> and
  \<^verbatim>\<open>main_engine\<close> on the instance: accessing these yields the stored dictionary, name
  and strategy, not a forwarding callable.
\<close>

theorem FillerEngine_getattr_counterexample:
  "getattr (\<lambda>n. None :: unit option) (FillerEngine_init ''Anarchy'' None) ''id''
      = Instance (DictV [(''name'', None)])
   \<and> invoke (\<lambda>me n (args :: nat list) kwargs. (me, n, args, kwargs))
        (getattr (\<lambda>n. None :: unit option) (FillerEngine_init ''Anarchy'' None) ''id'')
        [1, 2] [] = None
   \<and> getattr (\<lambda>n. None :: unit option) (FillerEngine_init ''Anarchy'' None) ''name''
      = Instance (NameV None)
   \<and> getattr (\<lambda>n. None :: unit option) (FillerEngine_init ''Anarchy'' None) ''main_engine''
      = Instance (ObjV ''Anarchy'')"
  by (simp add: getattr_def instance_dict_def FillerEngine_init_def invoke_def)

text \<open>
  Amended claim C8. For every attribute name that the ordinary lookup does not resolve
  (a name other than \<^verbatim>\<open>id\<close>, \<^verbatim>\<open>name\<close> and \<^verbatim>\<open>main_engine\<close> that the class and
  \<^verbatim>\<open>object\<close> do not define), accessing the attribute yields the closure over the owning
  strategy and the name, and invoking it with any positional and keyword arguments returns
  what the strategy's \<^verbatim>\<open>notify\<close> returns on the name and these arguments.
\<close>

theorem FillerEngine_getattr_forwards:
  assumes "class_lookup attr_name = None"
    and "attr_name \<noteq> ''id''" and "attr_name \<noteq> ''name''" and "attr_name \<noteq> ''main_engine''"
  shows "getattr class_lookup self attr_name = Method (main_engine self) attr_name
       \<and> invoke notify (getattr class_lookup self attr_name) args kwargs
           = Some (notify (main_engine self) attr_name args kwargs)"
  using assms
  by (simp add: getattr_def instance_dict_def FillerEngine_getattr_def invoke_def
      method_call_def)

text \<open>The driver's call \<^verbatim>\<open>engine.quit(1, 2, depth=3)\<close> reaches \<^verbatim>\<open>notify\<close> unchanged.\<close>

theorem FillerEngine_getattr_forwards_witness:
  "getattr (\<lambda>n. None :: unit option) (FillerEngine_init ''Anarchy'' None) ''quit''
      = Method ''Anarchy'' ''quit''
   \<and> invoke (\<lambda>me n (args :: nat list) kwargs. (me, n, args, kwargs))
        (getattr (\<lambda>n. None :: unit option) (FillerEngine_init ''Anarchy'' None) ''quit'')
        [1, 2] [(''depth'', 3)]
      = Some (''Anarchy'', ''quit'', [1, 2], [(''depth'', 3)])"
proof -
  have n: "(\<lambda>n. None :: unit option) ''quit'' = None" by simp
  have d: "''quit'' \<noteq> ''id''" "''quit'' \<noteq> ''name''" "''quit'' \<noteq> ''main_engine''" by simp_all
  have me: "main_engine (FillerEngine_init ''Anarchy'' None) = ''Anarchy''"
    by (simp add: FillerEngine_init_def)
  show ?thesis
    using FillerEngine_getattr_forwards[of "\<lambda>n. None :: unit option" "''quit''",
        OF n d, of "FillerEngine_init ''Anarchy'' None"
         "\<lambda>me n (args :: nat list) kwargs. (me, n, args, kwargs)" "[1, 2]" "[(''depth'', 3)]"]
    unfolding me .
qed

end
